theory Spec2Isabelle
  imports Complex_Main "HOL-Library.Char_ord" "HOL-Library.List_Lexorder" "HOL-Library.AList"
begin

section \<open>Data model (client/src/types/reflection.ts)\<close>

text \<open>
  JavaScript numbers are modelled as \<^typ>\<open>real\<close>: finite values with exact arithmetic
  (no NaN, no infinities, no rounding). TypeScript's string-literal unions
  (\<open>EmotionType\<close>, \<open>MoodType\<close>, \<open>FilterType\<close>) are erased at run time and the engine
  compares and concatenates them as strings, so they are \<^typ>\<open>string\<close> here. An
  optional field \<open>x?: T\<close> is a \<open>T option\<close>.

  Isabelle has one name space for the selectors of all records, so a field name that
  several interfaces share (\<open>id\<close>, \<open>timestamp\<close>, \<open>blob\<close>, \<open>type\<close>, ...) carries the
  interface as a suffix.

  A \<open>Blob\<close> is its content, a byte string. The interfaces declare \<open>blob: Blob\<close>, but
  the store writes \<open>null\<close> into that field of the metadata record and assigns the
  \<open>Blob | null\<close> result of \<open>getVideoBlob\<close> back into it, so the field holds a
  \<open>Blob option\<close> at run time.
\<close>

type_synonym Blob = string

record EmotionTag =
  emotion :: string
  intensity :: real
  confidence_tag :: real
  timestamp_tag :: real

record FragmentRating =
  id_rating :: string
  fragmentId_rating :: string
  helpful :: bool
  resonance :: real
  timestamp_rating :: real
  context_rating :: "string option"

record FragmentMetadata =
  mood :: string
  energy :: real
  clarity :: real
  facialExpression :: "string option"
  voiceTone :: "string option"
  keywords_meta :: "string list"

record FragmentVariation =
  id_var :: string
  parentId_var :: string
  filterType :: string
  filterSettings :: "(string \<times> string) list"
  blob_var :: "Blob option"
  timestamp_var :: real

record ResponseFragment =
  id_resp :: string
  parentId_resp :: string
  blob_resp :: "Blob option"
  timestamp_resp :: real
  responseType :: string
  notes_resp :: "string option"

record VideoFragment =
  id_frag :: string
  timestamp_frag :: real
  duration :: real
  blob_frag :: "Blob option"
  thumbnail :: "string option"
  tags :: "EmotionTag list"
  title :: "string option"
  notes_frag :: "string option"
  variations :: "FragmentVariation list"
  responses :: "ResponseFragment list"
  ratings :: "FragmentRating list"
  metadata :: FragmentMetadata

section \<open>The fragment store (IndexedDBManager in client/src/lib/videoFilters.ts)\<close>

subsection \<open>IndexedDB object stores\<close>

text \<open>
  An object store is a list of (key, record) pairs. \<open>put\<close> replaces the record under
  an existing key or inserts a new one at its place in key order, \<open>get\<close> returns the
  record under a key, \<open>getAll\<close> returns the records in list order, \<open>delete\<close> removes
  the key. Only the two stores the fragment operations touch are modelled; the
  \<open>sessions\<close> and \<open>patterns\<close> stores are separate collections that no fragment
  operation reads or writes.
\<close>

type_synonym 'v objectStore = "(string \<times> 'v) list"

fun store_put :: "string \<Rightarrow> 'v \<Rightarrow> 'v objectStore \<Rightarrow> 'v objectStore" where
  "store_put k v [] = [(k, v)]"
| "store_put k v ((k', v') # kvs) =
     (if k = k' then (k, v) # kvs
      else if k < k' then (k, v) # (k', v') # kvs
      else (k', v') # store_put k v kvs)"

definition store_get :: "'v objectStore \<Rightarrow> string \<Rightarrow> 'v option" where
  "store_get s k = map_of s k"

definition store_getAll :: "'v objectStore \<Rightarrow> 'v list" where
  "store_getAll s = map snd s"

definition store_delete :: "string \<Rightarrow> 'v objectStore \<Rightarrow> 'v objectStore" where
  "store_delete k s = AList.delete k s"

record database =
  fragments_db :: "VideoFragment objectStore"
  videoBlobs_db :: "Blob option objectStore"

text \<open>
  \<open>private db: IDBDatabase | null = null\<close>: the manager's state is the database it is
  connected to, or nothing before \<open>init\<close>.
\<close>

type_synonym manager = "database option"

subsection \<open>Requests and their failures\<close>

text \<open>
  Every operation wraps one IndexedDB request in a promise that rejects from
  \<open>request.onerror\<close> and resolves from \<open>request.onsuccess\<close>. Which requests fail is
  decided outside the program; it is the parameter \<open>fails\<close> of every operation, a
  predicate on requests (two requests of one call on the same store and key share
  their outcome). Each request runs in a transaction of its own, so a failed request
  changes nothing and a successful one is committed before the next starts.
\<close>

datatype storeName = FragmentsStore | VideoBlobsStore

datatype request =
  Put storeName string
| Get storeName string
| GetAll storeName
| Delete storeName string

datatype error =
  NotInitialized   \<comment> \<open>\<open>throw new Error('Database not initialized')\<close>\<close>
| RequestError     \<comment> \<open>\<open>reject(request.error)\<close>\<close>

definition noFailure :: "request \<Rightarrow> bool" where
  "noFailure r = False"

subsection \<open>Writing\<close>

definition saveVideoBlob ::
  "(request \<Rightarrow> bool) \<Rightarrow> string \<Rightarrow> Blob option \<Rightarrow> database \<Rightarrow> (error + unit) \<times> database" where
  "saveVideoBlob fails k b d =
     (if fails (Put VideoBlobsStore k) then (Inl RequestError, d)
      else (Inr (), d\<lparr>videoBlobs_db := store_put k b (videoBlobs_db d)\<rparr>))"

text \<open>\<open>for (const variation of fragment.variations) await this.saveVideoBlob(variation.id, variation.blob)\<close>\<close>

fun saveVariationBlobs ::
  "(request \<Rightarrow> bool) \<Rightarrow> FragmentVariation list \<Rightarrow> database \<Rightarrow> (error + unit) \<times> database" where
  "saveVariationBlobs fails [] d = (Inr (), d)"
| "saveVariationBlobs fails (variation # rest) d =
     (case saveVideoBlob fails (id_var variation) (blob_var variation) d of
        (Inl e, d') \<Rightarrow> (Inl e, d')
      | (Inr _, d') \<Rightarrow> saveVariationBlobs fails rest d')"

text \<open>\<open>for (const response of fragment.responses) await this.saveVideoBlob(response.id, response.blob)\<close>\<close>

fun saveResponseBlobs ::
  "(request \<Rightarrow> bool) \<Rightarrow> ResponseFragment list \<Rightarrow> database \<Rightarrow> (error + unit) \<times> database" where
  "saveResponseBlobs fails [] d = (Inr (), d)"
| "saveResponseBlobs fails (response # rest) d =
     (case saveVideoBlob fails (id_resp response) (blob_resp response) d of
        (Inl e, d') \<Rightarrow> (Inl e, d')
      | (Inr _, d') \<Rightarrow> saveResponseBlobs fails rest d')"

text \<open>
  \<open>{ ...fragment, blob: null, variations: fragment.variations.map(v => ({ ...v, blob: null })),
  responses: fragment.responses.map(r => ({ ...r, blob: null })) }\<close>
\<close>

definition fragmentToSave :: "VideoFragment \<Rightarrow> VideoFragment" where
  "fragmentToSave fragment =
     fragment\<lparr>blob_frag := None,
       variations := map (\<lambda>v. v\<lparr>blob_var := None\<rparr>) (variations fragment),
       responses := map (\<lambda>r. r\<lparr>blob_resp := None\<rparr>) (responses fragment)\<rparr>"

text \<open>
  The \<open>fragments\<close> store has \<open>keyPath: 'id'\<close>, so the metadata record is put under
  the fragment's own id. The result pairs the outcome with the manager state that
  the call leaves behind, also when it fails.
\<close>

definition saveFragment ::
  "(request \<Rightarrow> bool) \<Rightarrow> manager \<Rightarrow> VideoFragment \<Rightarrow> (error + unit) \<times> manager" where
  "saveFragment fails s fragment =
     (case s of
        None \<Rightarrow> (Inl NotInitialized, s)
      | Some d \<Rightarrow>
          (case saveVideoBlob fails (id_frag fragment) (blob_frag fragment) d of
             (Inl e, d1) \<Rightarrow> (Inl e, Some d1)
           | (Inr _, d1) \<Rightarrow>
               (case saveVariationBlobs fails (variations fragment) d1 of
                  (Inl e, d2) \<Rightarrow> (Inl e, Some d2)
                | (Inr _, d2) \<Rightarrow>
                    (case saveResponseBlobs fails (responses fragment) d2 of
                       (Inl e, d3) \<Rightarrow> (Inl e, Some d3)
                     | (Inr _, d3) \<Rightarrow>
                         (if fails (Put FragmentsStore (id_frag fragment))
                          then (Inl RequestError, Some d3)
                          else (Inr (),
                                Some (d3\<lparr>fragments_db :=
                                  store_put (id_frag fragment) (fragmentToSave fragment)
                                    (fragments_db d3)\<rparr>)))))))"

text \<open>
  The \<open>saveVideoBlob\<close> calls of \<open>saveFragment\<close>, key and blob, in the order in which
  the source makes them: the fragment's own, then one for each variation, then one for
  each response.
\<close>

definition payloadWrites :: "VideoFragment \<Rightarrow> (string \<times> Blob option) list" where
  "payloadWrites fragment =
     (id_frag fragment, blob_frag fragment)
     # map (\<lambda>variation. (id_var variation, blob_var variation)) (variations fragment)
     @ map (\<lambda>response. (id_resp response, blob_resp response)) (responses fragment)"

subsection \<open>Reading\<close>

text \<open>\<open>request.result?.blob || null\<close>: no record under the key, or a record whose blob is null, gives null.\<close>

definition resultBlob :: "database \<Rightarrow> string \<Rightarrow> Blob option" where
  "resultBlob d k = (case store_get (videoBlobs_db d) k of None \<Rightarrow> None | Some b \<Rightarrow> b)"

definition getVideoBlob :: "(request \<Rightarrow> bool) \<Rightarrow> database \<Rightarrow> string \<Rightarrow> error + Blob option" where
  "getVideoBlob fails d k =
     (if fails (Get VideoBlobsStore k) then Inl RequestError else Inr (resultBlob d k))"

text \<open>\<open>for (const variation of fragment.variations) variation.blob = await this.getVideoBlob(variation.id)\<close>\<close>

fun restoreVariations ::
  "(request \<Rightarrow> bool) \<Rightarrow> database \<Rightarrow> FragmentVariation list \<Rightarrow> error + FragmentVariation list" where
  "restoreVariations fails d [] = Inr []"
| "restoreVariations fails d (variation # rest) =
     (case getVideoBlob fails d (id_var variation) of
        Inl e \<Rightarrow> Inl e
      | Inr b \<Rightarrow>
          (case restoreVariations fails d rest of
             Inl e \<Rightarrow> Inl e
           | Inr rest' \<Rightarrow> Inr (variation\<lparr>blob_var := b\<rparr> # rest')))"

text \<open>\<open>for (const response of fragment.responses) response.blob = await this.getVideoBlob(response.id)\<close>\<close>

fun restoreResponses ::
  "(request \<Rightarrow> bool) \<Rightarrow> database \<Rightarrow> ResponseFragment list \<Rightarrow> error + ResponseFragment list" where
  "restoreResponses fails d [] = Inr []"
| "restoreResponses fails d (response # rest) =
     (case getVideoBlob fails d (id_resp response) of
        Inl e \<Rightarrow> Inl e
      | Inr b \<Rightarrow>
          (case restoreResponses fails d rest of
             Inl e \<Rightarrow> Inl e
           | Inr rest' \<Rightarrow> Inr (response\<lparr>blob_resp := b\<rparr> # rest')))"

text \<open>
  The three restoring statements that \<open>getFragment\<close> and the callback of
  \<open>getAllFragments\<close> both contain: the fragment's own blob, then each variation's,
  then each response's.
\<close>

definition restoreBlobs ::
  "(request \<Rightarrow> bool) \<Rightarrow> database \<Rightarrow> VideoFragment \<Rightarrow> error + VideoFragment" where
  "restoreBlobs fails d fragment =
     (case getVideoBlob fails d (id_frag fragment) of
        Inl e \<Rightarrow> Inl e
      | Inr b \<Rightarrow>
          (case restoreVariations fails d (variations fragment) of
             Inl e \<Rightarrow> Inl e
           | Inr vs \<Rightarrow>
               (case restoreResponses fails d (responses fragment) of
                  Inl e \<Rightarrow> Inl e
                | Inr rs \<Rightarrow>
                    Inr (fragment\<lparr>blob_frag := b, variations := vs, responses := rs\<rparr>))))"

text \<open>\<open>Promise<VideoFragment | null>\<close>: \<open>Inr None\<close> is the resolved \<open>null\<close> of an unknown id.\<close>

definition getFragment ::
  "(request \<Rightarrow> bool) \<Rightarrow> manager \<Rightarrow> string \<Rightarrow> error + VideoFragment option" where
  "getFragment fails s k =
     (case s of
        None \<Rightarrow> Inl NotInitialized
      | Some d \<Rightarrow>
          (if fails (Get FragmentsStore k) then Inl RequestError
           else (case store_get (fragments_db d) k of
                   None \<Rightarrow> Inr None
                 | Some fragment \<Rightarrow>
                     (case restoreBlobs fails d fragment of
                        Inl e \<Rightarrow> Inl e
                      | Inr restored \<Rightarrow> Inr (Some restored)))))"

text \<open>\<open>Promise.all\<close> over the restoring callbacks: one rejection rejects the whole call.\<close>

fun restoreAll ::
  "(request \<Rightarrow> bool) \<Rightarrow> database \<Rightarrow> VideoFragment list \<Rightarrow> error + VideoFragment list" where
  "restoreAll fails d [] = Inr []"
| "restoreAll fails d (fragment # rest) =
     (case restoreBlobs fails d fragment of
        Inl e \<Rightarrow> Inl e
      | Inr restored \<Rightarrow>
          (case restoreAll fails d rest of
             Inl e \<Rightarrow> Inl e
           | Inr rest' \<Rightarrow> Inr (restored # rest')))"

definition getAllFragments ::
  "(request \<Rightarrow> bool) \<Rightarrow> manager \<Rightarrow> error + VideoFragment list" where
  "getAllFragments fails s =
     (case s of
        None \<Rightarrow> Inl NotInitialized
      | Some d \<Rightarrow>
          (if fails (GetAll FragmentsStore) then Inl RequestError
           else restoreAll fails d (store_getAll (fragments_db d))))"

subsection \<open>Deleting\<close>

definition deleteVideoBlob ::
  "(request \<Rightarrow> bool) \<Rightarrow> string \<Rightarrow> database \<Rightarrow> (error + unit) \<times> database" where
  "deleteVideoBlob fails k d =
     (if fails (Delete VideoBlobsStore k) then (Inl RequestError, d)
      else (Inr (), d\<lparr>videoBlobs_db := store_delete k (videoBlobs_db d)\<rparr>))"

fun deleteVariationBlobs ::
  "(request \<Rightarrow> bool) \<Rightarrow> FragmentVariation list \<Rightarrow> database \<Rightarrow> (error + unit) \<times> database" where
  "deleteVariationBlobs fails [] d = (Inr (), d)"
| "deleteVariationBlobs fails (variation # rest) d =
     (case deleteVideoBlob fails (id_var variation) d of
        (Inl e, d') \<Rightarrow> (Inl e, d')
      | (Inr _, d') \<Rightarrow> deleteVariationBlobs fails rest d')"

fun deleteResponseBlobs ::
  "(request \<Rightarrow> bool) \<Rightarrow> ResponseFragment list \<Rightarrow> database \<Rightarrow> (error + unit) \<times> database" where
  "deleteResponseBlobs fails [] d = (Inr (), d)"
| "deleteResponseBlobs fails (response # rest) d =
     (case deleteVideoBlob fails (id_resp response) d of
        (Inl e, d') \<Rightarrow> (Inl e, d')
      | (Inr _, d') \<Rightarrow> deleteResponseBlobs fails rest d')"

definition deleteFragment ::
  "(request \<Rightarrow> bool) \<Rightarrow> manager \<Rightarrow> string \<Rightarrow> (error + unit) \<times> manager" where
  "deleteFragment fails s k =
     (case s of
        None \<Rightarrow> (Inl NotInitialized, s)
      | Some d \<Rightarrow>
          (case getFragment fails s k of
             Inl e \<Rightarrow> (Inl e, s)
           | Inr None \<Rightarrow> (Inr (), s)
           | Inr (Some fragment) \<Rightarrow>
               (case deleteVideoBlob fails k d of
                  (Inl e, d1) \<Rightarrow> (Inl e, Some d1)
                | (Inr _, d1) \<Rightarrow>
                    (case deleteVariationBlobs fails (variations fragment) d1 of
                       (Inl e, d2) \<Rightarrow> (Inl e, Some d2)
                     | (Inr _, d2) \<Rightarrow>
                         (case deleteResponseBlobs fails (responses fragment) d2 of
                            (Inl e, d3) \<Rightarrow> (Inl e, Some d3)
                          | (Inr _, d3) \<Rightarrow>
                              (if fails (Delete FragmentsStore k)
                               then (Inl RequestError, Some d3)
                               else (Inr (),
                                     Some (d3\<lparr>fragments_db :=
                                       store_delete k (fragments_db d3)\<rparr>))))))))"

section \<open>The pattern engine (PatternRecognitionEngine in src/unnamed/part_004)\<close>

subsection \<open>Insights and the run-time environment\<close>

datatype InsightType = emotional_cycle | trigger_pattern | growth_trend | resonance_cluster

record PatternInsight =
  id_ins :: string
  type_ins :: InsightType
  description :: string
  confidence :: real
  relatedFragments :: "string list"
  timestamp_ins :: real

text \<open>
  The engine reads two things from outside: \<open>Date.now()\<close> and \<open>Math.random()\<close>.
  \<open>dateNow rt n\<close> is what the \<open>n\<close>-th call of \<open>Date.now()\<close> during one call of the
  engine returns (calls are counted from 0), a whole number of milliseconds.
  \<open>Math.random()\<close> is only ever interpolated into an insight id, so \<open>mathRandom rt n\<close>
  is the text of the \<open>n\<close>-th random number.
\<close>

record runtime =
  dateNow :: "nat \<Rightarrow> int"
  mathRandom :: "nat \<Rightarrow> string"

subsection \<open>Strings and numbers\<close>

text \<open>\<open>Array.prototype.join\<close>\<close>

fun join :: "string \<Rightarrow> string list \<Rightarrow> string" where
  "join sep [] = []"
| "join sep [x] = x"
| "join sep (x # y # ys) = x @ sep @ join sep (y # ys)"

text \<open>\<open>String.prototype.includes\<close>: the second string occurs in the first as a substring.\<close>

fun stringIncludes :: "string \<Rightarrow> string \<Rightarrow> bool" where
  "stringIncludes [] sub = (sub = [])"
| "stringIncludes (c # cs) sub = (take (length sub) (c # cs) = sub \<or> stringIncludes cs sub)"

text \<open>
  The replacement text of \<open>pattern.replace(/-/g, ...)\<close>, byte for byte as the source
  file has it between the quotes: a space, the eight bytes C3 A2 E2 80 A0 E2 80 99,
  a space.
\<close>

definition arrow :: string where
  "arrow = [CHR '' '', CHR 0xC3, CHR 0xA2, CHR 0xE2, CHR 0x80, CHR 0xA0, CHR 0xE2, CHR 0x80,
            CHR 0x99, CHR '' '']"

fun replaceDashes :: "string \<Rightarrow> string" where
  "replaceDashes [] = []"
| "replaceDashes (c # cs) =
     (if c = CHR ''-'' then arrow @ replaceDashes cs else c # replaceDashes cs)"

fun digitsOf :: "nat \<Rightarrow> string" where
  "digitsOf n =
     (if n < 10 then [''0123456789'' ! n]
      else digitsOf (n div 10) @ [''0123456789'' ! (n mod 10)])"

declare digitsOf.simps [simp del]

text \<open>A whole number below \<open>10^21\<close> interpolated into a template literal.\<close>

definition numberToString :: "int \<Rightarrow> string" where
  "numberToString n = (if n < 0 then ''-'' @ digitsOf (nat (- n)) else digitsOf (nat n))"

text \<open>\<open>Math.round\<close>: the nearest whole number, a tie going up.\<close>

definition mathRound :: "real \<Rightarrow> int" where
  "mathRound x = \<lfloor>x + 1 / 2\<rfloor>"

text \<open>
  \<open>x.toFixed(2)\<close> for \<open>|x| < 10^21\<close>: the sign, then the whole number \<open>n\<close> nearest to
  \<open>100 |x|\<close> (the larger one at a tie), written with at least three digits and a point
  before the last two.
\<close>

definition toFixed2 :: "real \<Rightarrow> string" where
  "toFixed2 x =
     (let n = nat \<lfloor>\<bar>x\<bar> * 100 + 1 / 2\<rfloor>;
          m = digitsOf n;
          padded = replicate (3 - length m) (CHR ''0'') @ m
      in (if x < 0 then ''-'' else '''')
         @ take (length padded - 2) padded @ ''.'' @ drop (length padded - 2) padded)"

text \<open>\<open>m.set(key, (m.get(key) || 0) + 1)\<close> on a \<open>Map\<close>, which keeps its keys in insertion order.\<close>

definition increment :: "string \<Rightarrow> (string \<times> nat) list \<Rightarrow> (string \<times> nat) list" where
  "increment key m = AList.update key ((case map_of m key of None \<Rightarrow> 0 | Some c \<Rightarrow> c) + 1) m"

subsection \<open>Emotional cycles\<close>

text \<open>
  \<open>tags.reduce((max, tag) => tag.intensity > max.intensity ? tag : max)\<close>, which the
  source only evaluates under the guard \<open>tags.length > 0\<close>.
\<close>

definition dominantTag :: "EmotionTag list \<Rightarrow> EmotionTag" where
  "dominantTag ts =
     foldl (\<lambda>mx tag. if intensity tag > intensity mx then tag else mx) (hd ts) (tl ts)"

record EmotionSequence =
  emotion_seq :: string
  timestamp_seq :: real
  fragmentId_seq :: string

definition emotionSequencesOf :: "VideoFragment list \<Rightarrow> EmotionSequence list" where
  "emotionSequencesOf fragments =
     concat (map (\<lambda>fragment.
       if length (tags fragment) > 0
       then [\<lparr>emotion_seq = emotion (dominantTag (tags fragment)),
              timestamp_seq = timestamp_frag fragment,
              fragmentId_seq = id_frag fragment\<rparr>]
       else []) fragments)"

text \<open>\<open>emotionSequences.slice(i, i + patternLength).map(seq => seq.emotion).join('-')\<close> with \<open>patternLength = 3\<close>\<close>

definition patternAt :: "EmotionSequence list \<Rightarrow> nat \<Rightarrow> string" where
  "patternAt emotionSequences i = join ''-'' (map emotion_seq (take 3 (drop i emotionSequences)))"

text \<open>\<open>for (let i = 0; i <= emotionSequences.length - patternLength; i++)\<close>\<close>

definition emotionCyclesOf :: "EmotionSequence list \<Rightarrow> (string \<times> nat) list" where
  "emotionCyclesOf emotionSequences =
     foldl (\<lambda>emotionCycles i. increment (patternAt emotionSequences i) emotionCycles) []
       (filter (\<lambda>i. int i \<le> int (length emotionSequences) - 3) [0..<length emotionSequences])"

text \<open>
  The detectors are private and run only from \<open>analyzeEmotionalPatterns\<close>. Each insight
  calls \<open>Date.now()\<close> twice (id, time stamp); the cycle and trigger insights, which come
  first, call \<open>Math.random()\<close> once. The argument \<open>k\<close> is the number of insights the run
  has generated before the detector starts, so its \<open>j\<close>-th insight reads the clock at
  calls \<open>2 (k + j)\<close> and \<open>2 (k + j) + 1\<close>.
\<close>

definition detectEmotionalCycles :: "runtime \<Rightarrow> nat \<Rightarrow> VideoFragment list \<Rightarrow> PatternInsight list" where
  "detectEmotionalCycles rt k fragments =
     (let emotionSequences = emotionSequencesOf fragments;
          emotionCycles = emotionCyclesOf emotionSequences
      in map (\<lambda>(j, (pattern, count)).
           \<lparr>id_ins = ''cycle-'' @ numberToString (dateNow rt (2 * (k + j))) @ ''-''
                      @ mathRandom rt (k + j),
            type_ins = emotional_cycle,
            description = ''Recurring emotional pattern: '' @ replaceDashes pattern,
            confidence = min (real count / real (length fragments)) 0.9,
            relatedFragments =
              map fragmentId_seq
                (filter (\<lambda>seq. stringIncludes pattern (emotion_seq seq)) emotionSequences),
            timestamp_ins = real_of_int (dateNow rt (2 * (k + j) + 1))\<rparr>)
         (enumerate 0 (filter (\<lambda>(pattern, count). count \<ge> 2) emotionCycles)))"

subsection \<open>Trigger patterns\<close>

record EmotionTransition =
  from_tr :: string
  to_tr :: string
  timeDiff :: real
  fragmentIds :: "string \<times> string"

text \<open>\<open>for (let i = 0; i < fragments.length - 1; i++)\<close>\<close>

definition emotionTransitionsOf :: "VideoFragment list \<Rightarrow> EmotionTransition list" where
  "emotionTransitionsOf fragments =
     concat (map (\<lambda>i.
       (let current = fragments ! i; next = fragments ! (i + 1)
        in if length (tags current) > 0 \<and> length (tags next) > 0
           then (let currentEmotion = dominantTag (tags current);
                     nextEmotion = dominantTag (tags next)
                 in if emotion currentEmotion \<noteq> emotion nextEmotion
                    then [\<lparr>from_tr = emotion currentEmotion,
                           to_tr = emotion nextEmotion,
                           timeDiff = timestamp_frag next - timestamp_frag current,
                           fragmentIds = (id_frag current, id_frag next)\<rparr>]
                    else [])
           else []))
       (filter (\<lambda>i. int i < int (length fragments) - 1) [0..<length fragments]))"

text \<open>
  \<open>if (!transitionGroups.has(key)) transitionGroups.set(key, []);
  transitionGroups.get(key)!.push(transition)\<close>
\<close>

definition transitionGroupsOf ::
  "EmotionTransition list \<Rightarrow> (string \<times> EmotionTransition list) list" where
  "transitionGroupsOf emotionTransitions =
     foldl (\<lambda>transitionGroups transition.
       (let key = from_tr transition @ ''->'' @ to_tr transition
        in case map_of transitionGroups key of
             None \<Rightarrow> AList.update key [transition] transitionGroups
           | Some transitions \<Rightarrow> AList.update key (transitions @ [transition]) transitionGroups))
       [] emotionTransitions"

definition detectTriggerPatterns :: "runtime \<Rightarrow> nat \<Rightarrow> VideoFragment list \<Rightarrow> PatternInsight list" where
  "detectTriggerPatterns rt k fragments =
     (let emotionTransitions = emotionTransitionsOf fragments;
          transitionGroups = transitionGroupsOf emotionTransitions
      in map (\<lambda>(j, (key, transitions)).
           (let avgTimeDiff = sum_list (map timeDiff transitions) / real (length transitions)
            in \<lparr>id_ins = ''trigger-'' @ numberToString (dateNow rt (2 * (k + j))) @ ''-''
                         @ mathRandom rt (k + j),
                type_ins = trigger_pattern,
                description = ''Frequent emotional shift: '' @ key @ '' (avg ''
                  @ numberToString (mathRound (avgTimeDiff / 60000)) @ '' minutes apart)'',
                confidence = min (real (length transitions) / 5) 0.8,
                relatedFragments =
                  concat (map (\<lambda>t. [fst (fragmentIds t), snd (fragmentIds t)]) transitions),
                timestamp_ins = real_of_int (dateNow rt (2 * (k + j) + 1))\<rparr>))
         (enumerate 0 (filter (\<lambda>(key, transitions). length transitions \<ge> 2) transitionGroups)))"

subsection \<open>Growth trends\<close>

record Trend =
  slope :: real
  correlation :: real

text \<open>
  The last line of the source is \<open>Math.abs(numerator / Math.sqrt(denominatorX *
  denominatorY)) || 0\<close>: a zero divisor gives NaN there (the numerator is zero as
  well when a denominator is), which \<open>|| 0\<close> turns into 0.
\<close>

definition calculateTrend :: "real list \<Rightarrow> Trend" where
  "calculateTrend values =
     (if length values < 2 then \<lparr>slope = 0, correlation = 0\<rparr>
      else
        (let n = length values;
             x = map real [0..<n];
             meanX = sum_list x / real n;
             meanY = sum_list values / real n;
             (numerator, denominatorX, denominatorY) =
               foldl (\<lambda>(numerator, denominatorX, denominatorY) i.
                        (let deltaX = x ! i - meanX;
                             deltaY = values ! i - meanY
                         in (numerator + deltaX * deltaY,
                             denominatorX + deltaX * deltaX,
                             denominatorY + deltaY * deltaY)))
                 (0, 0, 0) [0..<n]
         in \<lparr>slope = (if denominatorX \<noteq> 0 then numerator / denominatorX else 0),
             correlation =
               (if sqrt (denominatorX * denominatorY) = 0 then 0
                else \<bar>numerator / sqrt (denominatorX * denominatorY)\<bar>)\<rparr>))"

definition detectGrowthTrends :: "runtime \<Rightarrow> nat \<Rightarrow> VideoFragment list \<Rightarrow> PatternInsight list" where
  "detectGrowthTrends rt k fragments =
     (if length fragments < 5 then []
      else
        (let clarityTrend = calculateTrend (map (\<lambda>f. clarity (metadata f)) fragments);
             energyTrend = calculateTrend (map (\<lambda>f. energy (metadata f)) fragments);
             clarityInsights =
               (if slope clarityTrend > 0.1
                then [\<lparr>id_ins = ''growth-clarity-'' @ numberToString (dateNow rt (2 * k)),
                       type_ins = growth_trend,
                       description = ''Increasing self-clarity over time (''
                         @ toFixed2 (slope clarityTrend) @ '' improvement rate)'',
                       confidence = correlation clarityTrend,
                       relatedFragments = map id_frag fragments,
                       timestamp_ins = real_of_int (dateNow rt (2 * k + 1))\<rparr>]
                else []);
             k' = k + length clarityInsights;
             energyInsights =
               (if slope energyTrend > 0.1
                then [\<lparr>id_ins = ''growth-energy-'' @ numberToString (dateNow rt (2 * k')),
                       type_ins = growth_trend,
                       description = ''Increasing energy levels over time (''
                         @ toFixed2 (slope energyTrend) @ '' improvement rate)'',
                       confidence = correlation energyTrend,
                       relatedFragments = map id_frag fragments,
                       timestamp_ins = real_of_int (dateNow rt (2 * k' + 1))\<rparr>]
                else [])
         in clarityInsights @ energyInsights))"

subsection \<open>Resonance clusters\<close>

text \<open>\<open>fragments.forEach(fragment => fragment.tags.forEach(tag => ...))\<close>, then the threshold \<open>Math.ceil(fragments.length * 0.6)\<close>.\<close>

definition findCommonEmotions :: "VideoFragment list \<Rightarrow> string list" where
  "findCommonEmotions fragments =
     (let emotionCounts =
            foldl (\<lambda>emotionCounts fragment.
                     foldl (\<lambda>emotionCounts tag. increment (emotion tag) emotionCounts)
                       emotionCounts (tags fragment))
              [] fragments;
          threshold = \<lceil>real (length fragments) * 0.6\<rceil>
      in map fst (filter (\<lambda>(e, count). int count \<ge> threshold) emotionCounts))"

definition findCommonMoods :: "VideoFragment list \<Rightarrow> string list" where
  "findCommonMoods fragments =
     (let moodCounts =
            foldl (\<lambda>moodCounts fragment. increment (mood (metadata fragment)) moodCounts)
              [] fragments;
          threshold = \<lceil>real (length fragments) * 0.5\<rceil>
      in map fst (filter (\<lambda>(m, count). int count \<ge> threshold) moodCounts))"

definition detectResonanceClusters :: "runtime \<Rightarrow> nat \<Rightarrow> VideoFragment list \<Rightarrow> PatternInsight list" where
  "detectResonanceClusters rt k fragments =
     (let highRatedFragments =
            filter (\<lambda>fragment.
              (let avgRating =
                     (if length (ratings fragment) > 0
                      then sum_list (map resonance (ratings fragment))
                             / real (length (ratings fragment))
                      else 0)
               in avgRating \<ge> 4)) fragments
      in if length highRatedFragments \<ge> 3
         then
           (let commonEmotions = findCommonEmotions highRatedFragments;
                commonMoods = findCommonMoods highRatedFragments;
                emotionInsights =
                  (if length commonEmotions > 0
                   then [\<lparr>id_ins = ''resonance-emotions-'' @ numberToString (dateNow rt (2 * k)),
                          type_ins = resonance_cluster,
                          description = ''Strong resonance with '' @ join '', '' commonEmotions
                            @ '' emotional states'',
                          confidence = 0.8,
                          relatedFragments = map id_frag highRatedFragments,
                          timestamp_ins = real_of_int (dateNow rt (2 * k + 1))\<rparr>]
                   else []);
                k' = k + length emotionInsights;
                moodInsights =
                  (if length commonMoods > 0
                   then [\<lparr>id_ins = ''resonance-moods-'' @ numberToString (dateNow rt (2 * k')),
                          type_ins = resonance_cluster,
                          description = ''Consistent positive response to ''
                            @ join '', '' commonMoods @ '' moods'',
                          confidence = 0.7,
                          relatedFragments = map id_frag highRatedFragments,
                          timestamp_ins = real_of_int (dateNow rt (2 * k' + 1))\<rparr>]
                   else [])
            in emotionInsights @ moodInsights)
         else [])"

subsection \<open>The analysis\<close>

text \<open>
  \<open>[...fragments].sort((a, b) => a.timestamp - b.timestamp)\<close> is a stable sort by
  ascending time stamp, as \<^const>\<open>sort_key\<close> is. The resonance detector gets the
  fragments in their given order.
\<close>

definition analyzeEmotionalPatterns :: "runtime \<Rightarrow> VideoFragment list \<Rightarrow> PatternInsight list" where
  "analyzeEmotionalPatterns rt fragments =
     (let sortedFragments = sort_key timestamp_frag fragments;
          cyclicPatterns = detectEmotionalCycles rt 0 sortedFragments;
          triggerPatterns = detectTriggerPatterns rt (length cyclicPatterns) sortedFragments;
          growthTrends =
            detectGrowthTrends rt (length cyclicPatterns + length triggerPatterns)
              sortedFragments;
          resonanceClusters =
            detectResonanceClusters rt
              (length cyclicPatterns + length triggerPatterns + length growthTrends) fragments
      in cyclicPatterns @ triggerPatterns @ growthTrends @ resonanceClusters)"

section \<open>The recommendation engine\<close>

datatype RecommendationType =
  mood_match | pattern_completion | contrast_learning | growth_opportunity

record RecommendationMatch =
  fragmentId :: string
  score :: real
  reason :: string
  type_rec :: RecommendationType

text \<open>The first argument is the value that this call's \<open>Date.now()\<close> returns.\<close>

definition calculateMoodScore :: "int \<Rightarrow> VideoFragment \<Rightarrow> real" where
  "calculateMoodScore now fragment =
     (let avgRating =
            (if length (ratings fragment) > 0
             then sum_list (map resonance (ratings fragment)) / real (length (ratings fragment))
             else 3);
          helpfulCount = length (filter helpful (ratings fragment));
          recency =
            max 0 (1 - (real_of_int now - timestamp_frag fragment)
                         / (30 * 24 * 60 * 60 * 1000))
      in (avgRating / 5) * 0.4
         + (real helpfulCount / real (max (length (ratings fragment)) 1)) * 0.4
         + recency * 0.2)"

definition findPatternCompletions ::
  "string \<Rightarrow> VideoFragment list \<Rightarrow> PatternInsight list \<Rightarrow> RecommendationMatch list" where
  "findPatternCompletions currentMood fragments patterns =
     concat (map (\<lambda>pattern.
       if type_ins pattern = emotional_cycle \<and> confidence pattern > 0.6
       then map (\<lambda>fragment.
              \<lparr>fragmentId = id_frag fragment,
               score = confidence pattern * 0.8,
               reason = ''Part of a recognized emotional pattern: '' @ description pattern,
               type_rec = pattern_completion\<rparr>)
            (filter (\<lambda>f. id_frag f \<in> set (relatedFragments pattern)
                          \<and> list_ex helpful (ratings f)) fragments)
       else []) patterns)"

subsection \<open>Contrast learning and the lookup in the table of opposites\<close>

text \<open>
  \<open>emotionOpposites\<close> is an object literal, and \<open>emotionOpposites[currentMood]\<close> is
  an ordinary property read: it finds the object's own seven properties and, for any
  other name, what the object inherits from \<open>Object.prototype\<close>. The inherited
  members are functions (each with its \<open>length\<close>, the number of declared parameters)
  and the accessor \<open>__proto__\<close>, which yields the prototype object itself. Every
  other name reads as \<open>undefined\<close>.
\<close>

datatype jsValue =
  JsArray "string list"
| JsFunction nat         \<comment> \<open>a function and its \<open>length\<close>\<close>
| JsObject               \<comment> \<open>an object without a \<open>length\<close>\<close>
| JsUndefined

definition emotionOpposites :: "(string \<times> string list) list" where
  "emotionOpposites =
     [(''anxious'', [''calm'', ''peaceful'']),
      (''sad'', [''happy'', ''hopeful'']),
      (''angry'', [''calm'', ''peaceful'']),
      (''confused'', [''confident'', ''clear'']),
      (''overwhelmed'', [''calm'', ''focused'']),
      (''frustrated'', [''patient'', ''understanding'']),
      (''lonely'', [''connected'', ''grateful''])]"

definition objectPrototype :: "(string \<times> jsValue) list" where
  "objectPrototype =
     [(''constructor'', JsFunction 1),
      (''__defineGetter__'', JsFunction 2),
      (''__defineSetter__'', JsFunction 2),
      (''hasOwnProperty'', JsFunction 1),
      (''__lookupGetter__'', JsFunction 1),
      (''__lookupSetter__'', JsFunction 1),
      (''isPrototypeOf'', JsFunction 1),
      (''propertyIsEnumerable'', JsFunction 1),
      (''toString'', JsFunction 0),
      (''valueOf'', JsFunction 0),
      (''__proto__'', JsObject),
      (''toLocaleString'', JsFunction 0)]"

definition readProperty :: "string \<Rightarrow> jsValue" where
  "readProperty key =
     (case map_of emotionOpposites key of
        Some opposites \<Rightarrow> JsArray opposites
      | None \<Rightarrow> (case map_of objectPrototype key of Some v \<Rightarrow> v | None \<Rightarrow> JsUndefined))"

datatype engineError = TypeError

text \<open>
  What the filter does when \<open>oppositeEmotions\<close> is not an array: \<open>f.tags.some(...)\<close>
  calls \<open>oppositeEmotions.includes\<close>, which is \<open>undefined\<close>, for the first tag it
  meets, and that call throws a TypeError. A fragment without tags never reaches the
  call and is not kept, so without any tagged fragment the result is empty.
\<close>

definition filterWithoutIncludes ::
  "VideoFragment list \<Rightarrow> engineError + RecommendationMatch list" where
  "filterWithoutIncludes fragments =
     (if list_ex (\<lambda>f. length (tags f) > 0) fragments then Inl TypeError else Inr [])"

text \<open>
  \<open>const oppositeEmotions = emotionOpposites[currentMood] || []\<close> (only \<open>undefined\<close> is
  falsy among the values read), then \<open>if (oppositeEmotions.length === 0) return []\<close>.
\<close>

definition findContrastLearning ::
  "string \<Rightarrow> VideoFragment list \<Rightarrow> engineError + RecommendationMatch list" where
  "findContrastLearning currentMood fragments =
     (case (case readProperty currentMood of JsUndefined \<Rightarrow> JsArray [] | v \<Rightarrow> v) of
        JsArray oppositeEmotions \<Rightarrow>
          (if length oppositeEmotions = 0 then Inr []
           else Inr (map (\<lambda>f.
                  \<lparr>fragmentId = id_frag f,
                   score = 0.7,
                   reason = ''Offers a contrasting perspective that has been helpful in the past'',
                   type_rec = contrast_learning\<rparr>)
                (filter (\<lambda>f.
                   (let hasOppositeEmotion =
                          list_ex (\<lambda>tag. emotion tag \<in> set oppositeEmotions
                                         \<and> intensity tag \<ge> 6) (tags f);
                        hasPositiveRating =
                          list_ex (\<lambda>r. helpful r \<and> resonance r \<ge> 4) (ratings f)
                    in hasOppositeEmotion \<and> hasPositiveRating)) fragments)))
      | JsFunction n \<Rightarrow> (if n = 0 then Inr [] else filterWithoutIncludes fragments)
      | JsObject \<Rightarrow> filterWithoutIncludes fragments
      | JsUndefined \<Rightarrow> Inr [])"

text \<open>
  \<open>.sort((a, b) => (b.metadata.clarity + b.metadata.energy) - (a.metadata.clarity +
  a.metadata.energy))\<close> is a stable sort by descending sum, that is, by the ascending
  negated sum.
\<close>

definition findGrowthOpportunities ::
  "VideoFragment list \<Rightarrow> PatternInsight list \<Rightarrow> RecommendationMatch list" where
  "findGrowthOpportunities fragments patterns =
     (let inspirationalFragments =
            take 3
              (sort_key (\<lambda>f. - (clarity (metadata f) + energy (metadata f)))
                 (filter (\<lambda>f. (clarity (metadata f) \<ge> 8 \<or> energy (metadata f) \<ge> 8)
                               \<and> list_ex helpful (ratings f)) fragments))
      in map (\<lambda>fragment.
           \<lparr>fragmentId = id_frag fragment,
            score = 0.6,
            reason = ''High clarity/energy fragment that could inspire growth'',
            type_rec = growth_opportunity\<rparr>) inspirationalFragments)"

text \<open>
  The only clock reads of a call are those of \<open>calculateMoodScore\<close>, one for each mood
  match in order. \<open>.sort((a, b) => b.score - a.score).slice(0, 10)\<close> is a stable sort
  by descending score and the first ten entries. A TypeError thrown by
  \<open>findContrastLearning\<close> ends the call.
\<close>

definition generateRecommendations ::
  "runtime \<Rightarrow> string \<Rightarrow> VideoFragment list \<Rightarrow> PatternInsight list
     \<Rightarrow> engineError + RecommendationMatch list" where
  "generateRecommendations rt currentMood fragments patterns =
     (let moodMatches =
            map (\<lambda>(j, f).
                  \<lparr>fragmentId = id_frag f,
                   score = calculateMoodScore (dateNow rt j) f,
                   reason = ''Matches your current '' @ currentMood
                     @ '' mood and has been helpful before'',
                   type_rec = mood_match\<rparr>)
              (enumerate 0
                 (filter (\<lambda>f. mood (metadata f) = currentMood \<and> list_ex helpful (ratings f))
                    fragments));
          patternMatches = findPatternCompletions currentMood fragments patterns
      in case findContrastLearning currentMood fragments of
           Inl e \<Rightarrow> Inl e
         | Inr contrastMatches \<Rightarrow>
             (let growthMatches = findGrowthOpportunities fragments patterns;
                  recommendations =
                    moodMatches @ patternMatches @ contrastMatches @ growthMatches
              in Inr (take 10 (sort_key (\<lambda>r. - score r) recommendations))))"

section \<open>Concrete stores and fragments\<close>

text \<open>
  \<open>stopRecording\<close> of client/src/lib/stores/useReflection.tsx builds every new
  fragment: the id and the time stamp come from the clock, the blob and the duration
  from the recorder, the rest are the defaults below.
\<close>

definition newFragment :: "string \<Rightarrow> real \<Rightarrow> Blob \<Rightarrow> real \<Rightarrow> VideoFragment" where
  "newFragment i now b dur =
     \<lparr>id_frag = i, timestamp_frag = now, duration = dur, blob_frag = Some b,
      thumbnail = None, tags = [], title = None, notes_frag = None,
      variations = [], responses = [], ratings = [],
      metadata = \<lparr>mood = ''reflective'', energy = 5, clarity = 5,
        facialExpression = None, voiceTone = None, keywords_meta = []\<rparr>\<rparr>"

definition emptyDatabase :: database where
  "emptyDatabase = \<lparr>fragments_db = [], videoBlobs_db = []\<rparr>"

definition exVariation :: "string \<Rightarrow> Blob \<Rightarrow> FragmentVariation" where
  "exVariation i b = \<lparr>id_var = i, parentId_var = ''f1'', filterType = ''warm'',
     filterSettings = [], blob_var = Some b, timestamp_var = 2000\<rparr>"

definition exResponse :: "string \<Rightarrow> Blob \<Rightarrow> ResponseFragment" where
  "exResponse i b = \<lparr>id_resp = i, parentId_resp = ''f1'', blob_resp = Some b,
     timestamp_resp = 3000, responseType = ''answer'', notes_resp = None\<rparr>"

text \<open>A fragment with one variation and one response, all three payload ids different.\<close>

definition exFragment :: VideoFragment where
  "exFragment = (newFragment ''f1'' 1000 ''AAA'' 5000)
     \<lparr>variations := [exVariation ''v1'' ''BBB''], responses := [exResponse ''r1'' ''CCC'']\<rparr>"

text \<open>The same fragment, but its variation and its response share the id \<open>x1\<close>.\<close>

definition clashFragment :: VideoFragment where
  "clashFragment = (newFragment ''f1'' 1000 ''AAA'' 5000)
     \<lparr>variations := [exVariation ''x1'' ''BBB''], responses := [exResponse ''x1'' ''CCC'']\<rparr>"

text \<open>
  A database whose metadata record of \<open>f1\<close> names the variation \<open>v1\<close>, with no
  blob stored under \<open>v1\<close>.
\<close>

definition orphanMetadata :: VideoFragment where
  "orphanMetadata = fragmentToSave exFragment"

definition orphanDatabase :: database where
  "orphanDatabase =
     \<lparr>fragments_db = [(''f1'', orphanMetadata)],
      videoBlobs_db = [(''f1'', Some ''AAA''), (''r1'', Some ''CCC'')]\<rparr>"

text \<open>The state after \<open>exFragment\<close> was saved into an empty database without failures.\<close>

definition savedState :: manager where
  "savedState = snd (saveFragment noFailure (Some emptyDatabase) exFragment)"

text \<open>A second save of \<open>f1\<close>, with another payload and a title, whose metadata write fails.\<close>

definition editedFragment :: VideoFragment where
  "editedFragment = exFragment\<lparr>blob_frag := Some ''ZZZ'', title := Some ''retake''\<rparr>"

definition metadataWriteFails :: "request \<Rightarrow> bool" where
  "metadataWriteFails r = (r = Put FragmentsStore ''f1'')"

section \<open>Concrete inputs of the engines\<close>

definition exRuntime :: runtime where
  "exRuntime = \<lparr>dateNow = (\<lambda>n. 1700000000000 + int n), mathRandom = (\<lambda>n. ''0.5'')\<rparr>"

definition otherRuntime :: runtime where
  "otherRuntime = \<lparr>dateNow = (\<lambda>n. 1800000000000 + 7 * int n), mathRandom = (\<lambda>n. ''0.25'')\<rparr>"

definition exTag :: "string \<Rightarrow> real \<Rightarrow> EmotionTag" where
  "exTag e i = \<lparr>emotion = e, intensity = i, confidence_tag = 1, timestamp_tag = 0\<rparr>"

definition exRating :: "bool \<Rightarrow> real \<Rightarrow> FragmentRating" where
  "exRating h r = \<lparr>id_rating = ''rating-1'', fragmentId_rating = ''f'', helpful = h,
     resonance = r, timestamp_rating = 0, context_rating = None\<rparr>"

definition day :: real where
  "day = 24 * 60 * 60 * 1000"

text \<open>
  Five new fragments dated day 1 to day 5 whose clarity is 3, 4, 5, 7, 9: no tags, no
  ratings, every other field as \<open>newFragment\<close> leaves it.
\<close>

definition clarityFragment :: "string \<Rightarrow> real \<Rightarrow> real \<Rightarrow> VideoFragment" where
  "clarityFragment i d c =
     (newFragment i (d * day) ''AAA'' 5000)
       \<lparr>metadata := (metadata (newFragment i (d * day) ''AAA'' 5000))\<lparr>clarity := c\<rparr>\<rparr>"

definition clarityScenario ::
  "string \<Rightarrow> string \<Rightarrow> string \<Rightarrow> string \<Rightarrow> string \<Rightarrow> VideoFragment list" where
  "clarityScenario a b c d e =
     [clarityFragment a 1 3, clarityFragment b 2 4, clarityFragment c 3 5,
      clarityFragment d 4 7, clarityFragment e 5 9]"

text \<open>
  Three fragments rated 5: the first carries two \<open>calm\<close> tags (the tagger appends a
  tag whatever the fragment already carries), the other two carry none.
\<close>

definition ratedFragment :: "string \<Rightarrow> EmotionTag list \<Rightarrow> VideoFragment" where
  "ratedFragment i ts =
     (newFragment i 1000 ''AAA'' 5000)\<lparr>tags := ts, ratings := [exRating True 5]\<rparr>"

definition doubleTagScenario :: "VideoFragment list" where
  "doubleTagScenario =
     [ratedFragment ''f1'' [exTag ''calm'' 5, exTag ''calm'' 7], ratedFragment ''f2'' [],
      ratedFragment ''f3'' []]"

text \<open>
  The reading of claim C4, to compare \<open>findCommonEmotions\<close> with: the emotions, in
  the order of their first tag, that at least 60% of the fragments carry, a fragment
  counting once for an emotion however many tags of it it has.
\<close>

definition emotionsOfSixtyPercent :: "VideoFragment list \<Rightarrow> string list" where
  "emotionsOfSixtyPercent fragments =
     filter (\<lambda>e. 5 * length (filter (\<lambda>f. e \<in> emotion ` set (tags f)) fragments)
                    \<ge> 3 * length fragments)
       (rev (remdups (rev (concat (map (\<lambda>f. map emotion (tags f)) fragments)))))"

text \<open>Fragments with one tag each, ten minutes apart.\<close>

definition taggedFragment :: "string \<Rightarrow> real \<Rightarrow> string \<Rightarrow> VideoFragment" where
  "taggedFragment i n e =
     (newFragment i (n * 600000) ''AAA'' 5000)\<lparr>tags := [exTag e 5]\<rparr>"

definition calmAnxiousCalm :: "VideoFragment list" where
  "calmAnxiousCalm =
     [taggedFragment ''f1'' 1 ''calm'', taggedFragment ''f2'' 2 ''anxious'',
      taggedFragment ''f3'' 3 ''calm'']"

definition alternating :: "VideoFragment list" where
  "alternating =
     [taggedFragment ''f1'' 1 ''calm'', taggedFragment ''f2'' 2 ''anxious'',
      taggedFragment ''f3'' 3 ''calm'', taggedFragment ''f4'' 4 ''anxious'',
      taggedFragment ''f5'' 5 ''calm'']"

text \<open>A helpful fragment of mood \<open>reflective\<close> dated 30 days after the clock of \<open>exRuntime\<close>.\<close>

definition futureFragment :: VideoFragment where
  "futureFragment =
     (newFragment ''f1'' (1700000000000 + 30 * day) ''AAA'' 5000)\<lparr>ratings := [exRating True 5]\<rparr>"

text \<open>What the recommendation engine returns for the mood \<open>reflective\<close> on \<open>doubleTagScenario\<close>.\<close>

definition threeMoodMatches :: "RecommendationMatch list" where
  "threeMoodMatches =
     map (\<lambda>i. \<lparr>fragmentId = i, score = 4 / 5,
               reason = ''Matches your current reflective mood and has been helpful before'',
               type_rec = mood_match\<rparr>) [''f1'', ''f2'', ''f3'']"

section \<open>Properties of the fragment store\<close>

subsection \<open>Auxiliary facts\<close>

lemmas ex_defs = emptyDatabase_def newFragment_def exVariation_def exResponse_def exFragment_def
  clashFragment_def noFailure_def orphanMetadata_def orphanDatabase_def
  metadataWriteFails_def savedState_def editedFragment_def

lemmas store_defs = saveFragment_def saveVideoBlob_def fragmentToSave_def getFragment_def
  restoreBlobs_def getVideoBlob_def resultBlob_def store_get_def store_getAll_def store_delete_def
  deleteFragment_def deleteVideoBlob_def getAllFragments_def
lemma map_of_store_put: "map_of (store_put k v s) = (map_of s)(k \<mapsto> v)"
  by (induction s) (auto simp: fun_eq_iff)

lemma store_get_put: "store_get (store_put k v s) k' = (if k' = k then Some v else store_get s k')"
  by (simp add: store_get_def map_of_store_put)

lemma store_get_delete: "store_get (store_delete k s) k' = (if k' = k then None else store_get s k')"
  by (simp add: store_get_def store_delete_def AList.delete_conv)

lemma saveVideoBlob_fragments: "fragments_db (snd (saveVideoBlob fails k b d)) = fragments_db d"
  by (simp add: saveVideoBlob_def)

lemma saveVideoBlob_ok:
  "saveVideoBlob fails k b d = (Inr u, d') \<Longrightarrow>
     resultBlob d' k' = (if k' = k then b else resultBlob d k')"
  by (auto simp: saveVideoBlob_def resultBlob_def store_get_put split: if_splits)

lemma saveVariationBlobs_fragments: "fragments_db (snd (saveVariationBlobs fails vs d)) = fragments_db d"
proof (induction vs arbitrary: d)
  case Nil
  show ?case by simp
next
  case (Cons v vs)
  show ?case
  proof (cases "saveVideoBlob fails (id_var v) (blob_var v) d")
    case (Pair r d')
    have "fragments_db d' = fragments_db d"
      using saveVideoBlob_fragments [of fails "id_var v" "blob_var v" d] Pair by simp
    then show ?thesis using Pair Cons.IH [of d'] by (cases r) simp_all
  qed
qed

lemma saveResponseBlobs_fragments: "fragments_db (snd (saveResponseBlobs fails rs d)) = fragments_db d"
proof (induction rs arbitrary: d)
  case Nil
  show ?case by simp
next
  case (Cons r rs)
  show ?case
  proof (cases "saveVideoBlob fails (id_resp r) (blob_resp r) d")
    case (Pair res d')
    have "fragments_db d' = fragments_db d"
      using saveVideoBlob_fragments [of fails "id_resp r" "blob_resp r" d] Pair by simp
    then show ?thesis using Pair Cons.IH [of d'] by (cases res) simp_all
  qed
qed

lemma saveVariationBlobs_other:
  "saveVariationBlobs fails vs d = (Inr u, d') \<Longrightarrow> k \<notin> id_var ` set vs \<Longrightarrow>
     resultBlob d' k = resultBlob d k"
proof (induction vs arbitrary: d)
  case Nil
  then show ?case by simp
next
  case (Cons v vs)
  obtain r d1 where p: "saveVideoBlob fails (id_var v) (blob_var v) d = (r, d1)"
    by (cases "saveVideoBlob fails (id_var v) (blob_var v) d")
  with Cons.prems(1) obtain u1 where r: "r = Inr u1" and rest: "saveVariationBlobs fails vs d1 = (Inr u, d')"
    by (cases r) auto
  have "resultBlob d1 k = resultBlob d k"
    using saveVideoBlob_ok [of fails "id_var v" "blob_var v" d u1 d1 k] p r Cons.prems(2) by simp
  moreover have "resultBlob d' k = resultBlob d1 k"
    using Cons.IH [OF rest] Cons.prems(2) by simp
  ultimately show ?case by simp
qed

lemma saveVariationBlobs_own:
  "saveVariationBlobs fails vs d = (Inr u, d') \<Longrightarrow> distinct (map id_var vs) \<Longrightarrow> v \<in> set vs \<Longrightarrow>
     resultBlob d' (id_var v) = blob_var v"
proof (induction vs arbitrary: d)
  case Nil
  then show ?case by simp
next
  case (Cons w vs)
  obtain r d1 where p: "saveVideoBlob fails (id_var w) (blob_var w) d = (r, d1)"
    by (cases "saveVideoBlob fails (id_var w) (blob_var w) d")
  with Cons.prems(1) obtain u1 where r: "r = Inr u1" and rest: "saveVariationBlobs fails vs d1 = (Inr u, d')"
    by (cases r) auto
  show ?case
  proof (cases "v \<in> set vs")
    case True
    then show ?thesis using Cons.IH [OF rest] Cons.prems(2) by simp
  next
    case False
    then have vw: "v = w" using Cons.prems(3) by simp
    have "id_var w \<notin> id_var ` set vs" using Cons.prems(2) by simp
    then have "resultBlob d' (id_var w) = resultBlob d1 (id_var w)"
      using saveVariationBlobs_other [OF rest] by simp
    also have "\<dots> = blob_var w"
      using saveVideoBlob_ok [of fails "id_var w" "blob_var w" d u1 d1 "id_var w"] p r by simp
    finally show ?thesis using vw by simp
  qed
qed

lemma saveResponseBlobs_other:
  "saveResponseBlobs fails rs d = (Inr u, d') \<Longrightarrow> k \<notin> id_resp ` set rs \<Longrightarrow>
     resultBlob d' k = resultBlob d k"
proof (induction rs arbitrary: d)
  case Nil
  then show ?case by simp
next
  case (Cons v vs)
  obtain r d1 where p: "saveVideoBlob fails (id_resp v) (blob_resp v) d = (r, d1)"
    by (cases "saveVideoBlob fails (id_resp v) (blob_resp v) d")
  with Cons.prems(1) obtain u1 where r: "r = Inr u1" and rest: "saveResponseBlobs fails vs d1 = (Inr u, d')"
    by (cases r) auto
  have "resultBlob d1 k = resultBlob d k"
    using saveVideoBlob_ok [of fails "id_resp v" "blob_resp v" d u1 d1 k] p r Cons.prems(2) by simp
  moreover have "resultBlob d' k = resultBlob d1 k"
    using Cons.IH [OF rest] Cons.prems(2) by simp
  ultimately show ?case by simp
qed

lemma saveResponseBlobs_own:
  "saveResponseBlobs fails rs d = (Inr u, d') \<Longrightarrow> distinct (map id_resp rs) \<Longrightarrow> v \<in> set rs \<Longrightarrow>
     resultBlob d' (id_resp v) = blob_resp v"
proof (induction rs arbitrary: d)
  case Nil
  then show ?case by simp
next
  case (Cons w vs)
  obtain r d1 where p: "saveVideoBlob fails (id_resp w) (blob_resp w) d = (r, d1)"
    by (cases "saveVideoBlob fails (id_resp w) (blob_resp w) d")
  with Cons.prems(1) obtain u1 where r: "r = Inr u1" and rest: "saveResponseBlobs fails vs d1 = (Inr u, d')"
    by (cases r) auto
  show ?case
  proof (cases "v \<in> set vs")
    case True
    then show ?thesis using Cons.IH [OF rest] Cons.prems(2) by simp
  next
    case False
    then have vw: "v = w" using Cons.prems(3) by simp
    have "id_resp w \<notin> id_resp ` set vs" using Cons.prems(2) by simp
    then have "resultBlob d' (id_resp w) = resultBlob d1 (id_resp w)"
      using saveResponseBlobs_other [OF rest] by simp
    also have "\<dots> = blob_resp w"
      using saveVideoBlob_ok [of fails "id_resp w" "blob_resp w" d u1 d1 "id_resp w"] p r by simp
    finally show ?thesis using vw by simp
  qed
qed

lemma restoreVariations_ok:
  "\<forall>k. \<not> fails (Get VideoBlobsStore k) \<Longrightarrow>
     restoreVariations fails d vs = Inr (map (\<lambda>v. v\<lparr>blob_var := resultBlob d (id_var v)\<rparr>) vs)"
  by (induction vs) (simp_all add: getVideoBlob_def)

lemma restoreResponses_ok:
  "\<forall>k. \<not> fails (Get VideoBlobsStore k) \<Longrightarrow>
     restoreResponses fails d rs = Inr (map (\<lambda>r. r\<lparr>blob_resp := resultBlob d (id_resp r)\<rparr>) rs)"
  by (induction rs) (simp_all add: getVideoBlob_def)

lemma restoreBlobs_ok:
  "\<forall>k. \<not> fails (Get VideoBlobsStore k) \<Longrightarrow>
     restoreBlobs fails d m =
       Inr (m\<lparr>blob_frag := resultBlob d (id_frag m),
              variations := map (\<lambda>v. v\<lparr>blob_var := resultBlob d (id_var v)\<rparr>) (variations m),
              responses := map (\<lambda>r. r\<lparr>blob_resp := resultBlob d (id_resp r)\<rparr>) (responses m)\<rparr>)"
  by (simp add: restoreBlobs_def restoreVariations_ok restoreResponses_ok getVideoBlob_def)

lemma restoreAll_ok:
  "\<forall>k. \<not> fails (Get VideoBlobsStore k) \<Longrightarrow>
     restoreAll fails d ms =
       Inr (map (\<lambda>m. m\<lparr>blob_frag := resultBlob d (id_frag m),
              variations := map (\<lambda>v. v\<lparr>blob_var := resultBlob d (id_var v)\<rparr>) (variations m),
              responses := map (\<lambda>r. r\<lparr>blob_resp := resultBlob d (id_resp r)\<rparr>) (responses m)\<rparr>) ms)"
  by (induction ms) (simp_all add: restoreBlobs_ok)

lemma saveFragment_fragments_on_failure:
  "fst (saveFragment fails s f) = Inl e \<Longrightarrow>
     map_option fragments_db (snd (saveFragment fails s f)) = map_option fragments_db s"
proof (cases s)
  case None
  then show ?thesis by (simp add: saveFragment_def)
next
  case (Some d)
  assume fl: "fst (saveFragment fails s f) = Inl e"
  obtain r1 d1 where p1: "saveVideoBlob fails (id_frag f) (blob_frag f) d = (r1, d1)"
    by (cases "saveVideoBlob fails (id_frag f) (blob_frag f) d")
  obtain r2 d2 where p2: "saveVariationBlobs fails (variations f) d1 = (r2, d2)"
    by (cases "saveVariationBlobs fails (variations f) d1")
  obtain r3 d3 where p3: "saveResponseBlobs fails (responses f) d2 = (r3, d3)"
    by (cases "saveResponseBlobs fails (responses f) d2")
  have f1: "fragments_db d1 = fragments_db d"
    using saveVideoBlob_fragments [of fails "id_frag f" "blob_frag f" d] p1 by simp
  have f2: "fragments_db d2 = fragments_db d"
    using saveVariationBlobs_fragments [of fails "variations f" d1] p2 f1 by simp
  have f3: "fragments_db d3 = fragments_db d"
    using saveResponseBlobs_fragments [of fails "responses f" d2] p3 f2 by simp
  show ?thesis
    using fl Some p1 p2 p3 f1 f2 f3
    by (cases r1; cases r2; cases r3) (simp_all add: saveFragment_def split: if_splits)
qed

lemma saveVideoBlob_other_key:
  "k' \<noteq> k \<Longrightarrow>
     store_get (videoBlobs_db (snd (saveVideoBlob fails k b d))) k' = store_get (videoBlobs_db d) k'"
  by (simp add: saveVideoBlob_def store_get_put)

lemma saveVariationBlobs_other_key:
  "k \<notin> id_var ` set vs \<Longrightarrow>
     store_get (videoBlobs_db (snd (saveVariationBlobs fails vs d))) k = store_get (videoBlobs_db d) k"
proof (induction vs arbitrary: d)
  case Nil
  show ?case by simp
next
  case (Cons v vs)
  obtain r d1 where p: "saveVideoBlob fails (id_var v) (blob_var v) d = (r, d1)"
    by (cases "saveVideoBlob fails (id_var v) (blob_var v) d")
  have one: "store_get (videoBlobs_db d1) k = store_get (videoBlobs_db d) k"
    using saveVideoBlob_other_key [of k "id_var v" fails "blob_var v" d] p Cons.prems by simp
  have rest: "store_get (videoBlobs_db (snd (saveVariationBlobs fails vs d1))) k
                = store_get (videoBlobs_db d1) k"
    using Cons.IH [of d1] Cons.prems by simp
  show ?case using p one rest by (cases r) simp_all
qed

lemma saveResponseBlobs_other_key:
  "k \<notin> id_resp ` set rs \<Longrightarrow>
     store_get (videoBlobs_db (snd (saveResponseBlobs fails rs d))) k = store_get (videoBlobs_db d) k"
proof (induction rs arbitrary: d)
  case Nil
  show ?case by simp
next
  case (Cons v vs)
  obtain r d1 where p: "saveVideoBlob fails (id_resp v) (blob_resp v) d = (r, d1)"
    by (cases "saveVideoBlob fails (id_resp v) (blob_resp v) d")
  have one: "store_get (videoBlobs_db d1) k = store_get (videoBlobs_db d) k"
    using saveVideoBlob_other_key [of k "id_resp v" fails "blob_resp v" d] p Cons.prems by simp
  have rest: "store_get (videoBlobs_db (snd (saveResponseBlobs fails vs d1))) k
                = store_get (videoBlobs_db d1) k"
    using Cons.IH [of d1] Cons.prems by simp
  show ?case using p one rest by (cases r) simp_all
qed

lemma saveFragment_other_blobs:
  assumes k: "k \<notin> set (id_frag f # map id_var (variations f) @ map id_resp (responses f))"
    and res: "saveFragment fails (Some d) f = (r, Some d')"
  shows "store_get (videoBlobs_db d') k = store_get (videoBlobs_db d) k"
proof -
  obtain r1 d1 where p1: "saveVideoBlob fails (id_frag f) (blob_frag f) d = (r1, d1)"
    by (cases "saveVideoBlob fails (id_frag f) (blob_frag f) d")
  obtain r2 d2 where p2: "saveVariationBlobs fails (variations f) d1 = (r2, d2)"
    by (cases "saveVariationBlobs fails (variations f) d1")
  obtain r3 d3 where p3: "saveResponseBlobs fails (responses f) d2 = (r3, d3)"
    by (cases "saveResponseBlobs fails (responses f) d2")
  have b1: "store_get (videoBlobs_db d1) k = store_get (videoBlobs_db d) k"
    using saveVideoBlob_other_key [of k "id_frag f" fails "blob_frag f" d] p1 k by simp
  have b2: "store_get (videoBlobs_db d2) k = store_get (videoBlobs_db d) k"
    using saveVariationBlobs_other_key [of k "variations f" fails d1] p2 k b1 by simp
  have b3: "store_get (videoBlobs_db d3) k = store_get (videoBlobs_db d) k"
    using saveResponseBlobs_other_key [of k "responses f" fails d2] p3 k b2 by simp
  show ?thesis
    using res p1 p2 p3 b1 b2 b3
    by (cases r1; cases r2; cases r3) (auto simp: saveFragment_def split: if_splits)
qed

lemma deleteVideoBlob_fragments: "fragments_db (snd (deleteVideoBlob fails k d)) = fragments_db d"
  by (simp add: deleteVideoBlob_def)

lemma deleteVideoBlob_gone:
  "deleteVideoBlob fails k d = (Inr u, d') \<Longrightarrow> store_get (videoBlobs_db d') k = None"
  by (auto simp: deleteVideoBlob_def store_get_delete split: if_splits)

lemma deleteVideoBlob_stays_gone:
  "store_get (videoBlobs_db d) k' = None \<Longrightarrow>
     store_get (videoBlobs_db (snd (deleteVideoBlob fails k d))) k' = None"
  by (simp add: deleteVideoBlob_def store_get_delete)

lemma deleteVariationBlobs_fragments:
  "fragments_db (snd (deleteVariationBlobs fails vs d)) = fragments_db d"
proof (induction vs arbitrary: d)
  case Nil
  show ?case by simp
next
  case (Cons v vs)
  obtain r d1 where p: "deleteVideoBlob fails (id_var v) d = (r, d1)"
    by (cases "deleteVideoBlob fails (id_var v) d")
  have "fragments_db d1 = fragments_db d"
    using deleteVideoBlob_fragments [of fails "id_var v" d] p by simp
  then show ?case using p Cons.IH [of d1] by (cases r) simp_all
qed

lemma deleteResponseBlobs_fragments:
  "fragments_db (snd (deleteResponseBlobs fails rs d)) = fragments_db d"
proof (induction rs arbitrary: d)
  case Nil
  show ?case by simp
next
  case (Cons v vs)
  obtain r d1 where p: "deleteVideoBlob fails (id_resp v) d = (r, d1)"
    by (cases "deleteVideoBlob fails (id_resp v) d")
  have "fragments_db d1 = fragments_db d"
    using deleteVideoBlob_fragments [of fails "id_resp v" d] p by simp
  then show ?case using p Cons.IH [of d1] by (cases r) simp_all
qed

lemma deleteVariationBlobs_stays_gone:
  "store_get (videoBlobs_db d) k = None \<Longrightarrow>
     store_get (videoBlobs_db (snd (deleteVariationBlobs fails vs d))) k = None"
proof (induction vs arbitrary: d)
  case Nil
  then show ?case by simp
next
  case (Cons v vs)
  obtain r d1 where p: "deleteVideoBlob fails (id_var v) d = (r, d1)"
    by (cases "deleteVideoBlob fails (id_var v) d")
  have "store_get (videoBlobs_db d1) k = None"
    using deleteVideoBlob_stays_gone [OF Cons.prems, of fails "id_var v"] p by simp
  then show ?case using p Cons.IH [of d1] by (cases r) simp_all
qed

lemma deleteResponseBlobs_stays_gone:
  "store_get (videoBlobs_db d) k = None \<Longrightarrow>
     store_get (videoBlobs_db (snd (deleteResponseBlobs fails rs d))) k = None"
proof (induction rs arbitrary: d)
  case Nil
  then show ?case by simp
next
  case (Cons v vs)
  obtain r d1 where p: "deleteVideoBlob fails (id_resp v) d = (r, d1)"
    by (cases "deleteVideoBlob fails (id_resp v) d")
  have "store_get (videoBlobs_db d1) k = None"
    using deleteVideoBlob_stays_gone [OF Cons.prems, of fails "id_resp v"] p by simp
  then show ?case using p Cons.IH [of d1] by (cases r) simp_all
qed

lemma deleteVariationBlobs_gone:
  "deleteVariationBlobs fails vs d = (Inr u, d') \<Longrightarrow> v \<in> set vs \<Longrightarrow>
     store_get (videoBlobs_db d') (id_var v) = None"
proof (induction vs arbitrary: d)
  case Nil
  then show ?case by simp
next
  case (Cons w vs)
  obtain r d1 where p: "deleteVideoBlob fails (id_var w) d = (r, d1)"
    by (cases "deleteVideoBlob fails (id_var w) d")
  with Cons.prems(1) obtain u1 where r: "r = Inr u1"
    and rest: "deleteVariationBlobs fails vs d1 = (Inr u, d')"
    by (cases r) auto
  show ?case
  proof (cases "v \<in> set vs")
    case True
    then show ?thesis using Cons.IH [OF rest] by simp
  next
    case False
    then have "v = w" using Cons.prems(2) by simp
    moreover have "store_get (videoBlobs_db d1) (id_var w) = None"
      using deleteVideoBlob_gone [OF p [unfolded r]] .
    ultimately show ?thesis
      using deleteVariationBlobs_stays_gone [of d1 "id_var w" fails vs] rest by simp
  qed
qed

lemma deleteResponseBlobs_gone:
  "deleteResponseBlobs fails rs d = (Inr u, d') \<Longrightarrow> v \<in> set rs \<Longrightarrow>
     store_get (videoBlobs_db d') (id_resp v) = None"
proof (induction rs arbitrary: d)
  case Nil
  then show ?case by simp
next
  case (Cons w vs)
  obtain r d1 where p: "deleteVideoBlob fails (id_resp w) d = (r, d1)"
    by (cases "deleteVideoBlob fails (id_resp w) d")
  with Cons.prems(1) obtain u1 where r: "r = Inr u1"
    and rest: "deleteResponseBlobs fails vs d1 = (Inr u, d')"
    by (cases r) auto
  show ?case
  proof (cases "v \<in> set vs")
    case True
    then show ?thesis using Cons.IH [OF rest] by simp
  next
    case False
    then have "v = w" using Cons.prems(2) by simp
    moreover have "store_get (videoBlobs_db d1) (id_resp w) = None"
      using deleteVideoBlob_gone [OF p [unfolded r]] .
    ultimately show ?thesis
      using deleteResponseBlobs_stays_gone [of d1 "id_resp w" fails vs] rest by simp
  qed
qed

lemma restoreVariations_ids:
  "restoreVariations fails d vs = Inr vs' \<Longrightarrow> map id_var vs' = map id_var vs"
  by (induction vs arbitrary: vs') (auto split: sum.splits)

lemma restoreResponses_ids:
  "restoreResponses fails d rs = Inr rs' \<Longrightarrow> map id_resp rs' = map id_resp rs"
  by (induction rs arbitrary: rs') (auto split: sum.splits)

lemma restoreBlobs_ids:
  "restoreBlobs fails d m = Inr g \<Longrightarrow>
     map id_var (variations g) = map id_var (variations m)
     \<and> map id_resp (responses g) = map id_resp (responses m)"
  by (auto simp: restoreBlobs_def split: sum.splits
      dest: restoreVariations_ids restoreResponses_ids)

lemma saveVariationBlobs_written:
  "saveVariationBlobs fails vs d =
     (if \<forall>v \<in> set vs. \<not> fails (Put VideoBlobsStore (id_var v)) then Inr () else Inl RequestError,
      d\<lparr>videoBlobs_db :=
          foldl (\<lambda>s (k, b). store_put k b s) (videoBlobs_db d)
            (takeWhile (\<lambda>(k, b). \<not> fails (Put VideoBlobsStore k))
               (map (\<lambda>v. (id_var v, blob_var v)) vs))\<rparr>)"
  by (induction vs arbitrary: d) (simp_all add: saveVideoBlob_def)

lemma saveResponseBlobs_written:
  "saveResponseBlobs fails rs d =
     (if \<forall>r \<in> set rs. \<not> fails (Put VideoBlobsStore (id_resp r)) then Inr () else Inl RequestError,
      d\<lparr>videoBlobs_db :=
          foldl (\<lambda>s (k, b). store_put k b s) (videoBlobs_db d)
            (takeWhile (\<lambda>(k, b). \<not> fails (Put VideoBlobsStore k))
               (map (\<lambda>r. (id_resp r, blob_resp r)) rs))\<rparr>)"
  by (induction rs arbitrary: d) (simp_all add: saveVideoBlob_def)

lemma takeWhile_all: "\<forall>x \<in> set xs. P x \<Longrightarrow> takeWhile P (xs @ ys) = xs @ takeWhile P ys"
  by (simp add: takeWhile_append2)

lemma takeWhile_stops: "\<not> (\<forall>x \<in> set xs. P x) \<Longrightarrow> takeWhile P (xs @ ys) = takeWhile P xs"
  by (auto simp: takeWhile_append1)

lemma takeWhile_whole: "\<forall>x \<in> set xs. P x \<Longrightarrow> takeWhile P xs = xs"
  by (simp add: takeWhile_eq_all_conv)

lemma saveFragment_blobs_written:
  assumes "saveFragment fails (Some d) f = (r, Some d')"
  shows "videoBlobs_db d' =
     foldl (\<lambda>s (k, b). store_put k b s) (videoBlobs_db d)
       (takeWhile (\<lambda>(k, b). \<not> fails (Put VideoBlobsStore k)) (payloadWrites f))"
proof -
  let ?P = "\<lambda>(k, b). \<not> fails (Put VideoBlobsStore k)"
  let ?W2 = "map (\<lambda>v. (id_var v, blob_var v)) (variations f)"
  let ?W3 = "map (\<lambda>r. (id_resp r, blob_resp r)) (responses f)"
  show ?thesis
  proof (cases "fails (Put VideoBlobsStore (id_frag f))")
    case True
    with assms show ?thesis
      by (auto simp: saveFragment_def saveVideoBlob_def payloadWrites_def)
  next
    case own: False
    show ?thesis
    proof (cases "\<forall>v \<in> set (variations f). \<not> fails (Put VideoBlobsStore (id_var v))")
      case False
      then have "\<not> (\<forall>x \<in> set ?W2. ?P x)" by auto
      then have tw: "takeWhile ?P (?W2 @ ?W3) = takeWhile ?P ?W2" by (rule takeWhile_stops)
      from assms own False show ?thesis
        by (auto simp: saveFragment_def saveVideoBlob_def saveVariationBlobs_written
            payloadWrites_def tw)
    next
      case vars: True
      then have allv: "\<forall>x \<in> set ?W2. ?P x" by auto
      have tw: "takeWhile ?P (?W2 @ ?W3) = ?W2 @ takeWhile ?P ?W3"
        using allv by (rule takeWhile_all)
      have tw2: "takeWhile ?P ?W2 = ?W2" using allv by (rule takeWhile_whole)
      from assms own vars show ?thesis
        by (auto simp: saveFragment_def saveVideoBlob_def saveVariationBlobs_written
            saveResponseBlobs_written payloadWrites_def tw tw2 split: if_splits)
    qed
  qed
qed

section \<open>Properties of the engines\<close>

subsection \<open>Auxiliary facts\<close>

lemmas engine_ex_defs = exTag_def exRating_def newFragment_def ratedFragment_def
  taggedFragment_def

lemma detectGrowthTrends_type:
  "i \<in> set (detectGrowthTrends rt k fs) \<Longrightarrow> type_ins i = growth_trend"
  by (auto simp: detectGrowthTrends_def Let_def split: if_splits)

lemma detectResonanceClusters_type:
  "i \<in> set (detectResonanceClusters rt k fs) \<Longrightarrow> type_ins i = resonance_cluster"
  by (auto simp: detectResonanceClusters_def Let_def split: if_splits)

lemma detectEmotionalCycles_type:
  "i \<in> set (detectEmotionalCycles rt k fs) \<Longrightarrow> type_ins i = emotional_cycle"
  by (auto simp: detectEmotionalCycles_def Let_def)

lemma detectTriggerPatterns_type:
  "i \<in> set (detectTriggerPatterns rt k fs) \<Longrightarrow> type_ins i = trigger_pattern"
  by (auto simp: detectTriggerPatterns_def Let_def)

lemmas ex5_defs = calmAnxiousCalm_def taggedFragment_def exTag_def newFragment_def dominantTag_def

lemmas scn_defs = clarityScenario_def clarityFragment_def newFragment_def

lemma day_pos: "0 < day"
  by (simp add: day_def)

lemma clarityScenario_sorted:
  "sort_key timestamp_frag (clarityScenario a b c d e) = clarityScenario a b c d e"
proof (rule sort_key_id_if_sorted)
  have "map timestamp_frag (clarityScenario a b c d e)
          = [1 * day, 2 * day, 3 * day, 4 * day, 5 * day]"
    by (simp add: scn_defs)
  then show "sorted (map timestamp_frag (clarityScenario a b c d e))"
    using day_pos by simp
qed

lemma clarityScenario_cycles: "detectEmotionalCycles rt k (clarityScenario a b c d e) = []"
  by (simp add: detectEmotionalCycles_def emotionSequencesOf_def emotionCyclesOf_def scn_defs)

lemma clarityScenario_triggers: "detectTriggerPatterns rt k (clarityScenario a b c d e) = []"
  by (simp add: detectTriggerPatterns_def emotionTransitionsOf_def transitionGroupsOf_def scn_defs)

lemma clarityScenario_resonance: "detectResonanceClusters rt k (clarityScenario a b c d e) = []"
  by (simp add: detectResonanceClusters_def scn_defs)

lemma clarityScenario_fields:
  "map (\<lambda>f. clarity (metadata f)) (clarityScenario a b c d e) = [3, 4, 5, 7, 9]"
  "map (\<lambda>f. energy (metadata f)) (clarityScenario a b c d e) = [5, 5, 5, 5, 5]"
  "map id_frag (clarityScenario a b c d e) = [a, b, c, d, e]"
  "length (clarityScenario a b c d e) = 5"
  by (simp_all add: scn_defs)

lemma slope_rising: "slope (calculateTrend [3, 4, 5, 7, 9]) = 3 / 2"
  by (simp add: calculateTrend_def)

lemma slope_constant: "slope (calculateTrend [5, 5, 5, 5, 5]) = 0"
  by (simp add: calculateTrend_def)

lemma toFixed2_rising: "toFixed2 (3 / 2) = ''1.50''"
  by (simp add: toFixed2_def digitsOf.simps)

lemma map_enumerate_snd: "map (\<lambda>(j, x). h x) (enumerate n xs) = map h xs"
  by (induction xs arbitrary: n) simp_all

lemma detectEmotionalCycles_content:
  "map (\<lambda>i. (description i, relatedFragments i)) (detectEmotionalCycles rt k fs)
     = map (\<lambda>(pattern, count).
              (''Recurring emotional pattern: '' @ replaceDashes pattern,
               map fragmentId_seq
                 (filter (\<lambda>seq. stringIncludes pattern (emotion_seq seq))
                    (emotionSequencesOf fs))))
         (filter (\<lambda>(pattern, count). count \<ge> 2) (emotionCyclesOf (emotionSequencesOf fs)))"
proof -
  have "map (\<lambda>i. (description i, relatedFragments i)) (detectEmotionalCycles rt k fs)
     = map (\<lambda>(j, pc). (\<lambda>(pattern, count).
              (''Recurring emotional pattern: '' @ replaceDashes pattern,
               map fragmentId_seq
                 (filter (\<lambda>seq. stringIncludes pattern (emotion_seq seq))
                    (emotionSequencesOf fs)))) pc)
         (enumerate 0
            (filter (\<lambda>(pattern, count). count \<ge> 2) (emotionCyclesOf (emotionSequencesOf fs))))"
    by (simp add: detectEmotionalCycles_def Let_def case_prod_unfold comp_def)
  then show ?thesis by (simp only: map_enumerate_snd)
qed

lemma only_cycles:
  "filter (\<lambda>i. type_ins i = emotional_cycle) (analyzeEmotionalPatterns rt fs)
     = detectEmotionalCycles rt 0 (sort_key timestamp_frag fs)"
proof -
  have c: "filter (\<lambda>i. type_ins i = emotional_cycle) (detectEmotionalCycles rt k xs)
             = detectEmotionalCycles rt k xs" for k xs
    by (rule filter_True) (simp add: detectEmotionalCycles_type)
  have t: "filter (\<lambda>i. type_ins i = emotional_cycle) (detectTriggerPatterns rt k xs) = []" for k xs
    by (auto simp: filter_empty_conv dest: detectTriggerPatterns_type)
  have g: "filter (\<lambda>i. type_ins i = emotional_cycle) (detectGrowthTrends rt k xs) = []" for k xs
    by (auto simp: filter_empty_conv dest: detectGrowthTrends_type)
  have r: "filter (\<lambda>i. type_ins i = emotional_cycle) (detectResonanceClusters rt k xs) = []" for k xs
    by (auto simp: filter_empty_conv dest: detectResonanceClusters_type)
  show ?thesis
    by (simp add: analyzeEmotionalPatterns_def Let_def c t g r)
qed

lemmas alt_defs = alternating_def taggedFragment_def exTag_def newFragment_def

lemma alternating_sorted: "sort_key timestamp_frag alternating = alternating"
  by (rule sort_key_id_if_sorted) (simp add: alt_defs)

lemma alternating_sequences:
  "emotionSequencesOf alternating =
     [\<lparr>emotion_seq = ''calm'', timestamp_seq = 600000, fragmentId_seq = ''f1''\<rparr>,
      \<lparr>emotion_seq = ''anxious'', timestamp_seq = 1200000, fragmentId_seq = ''f2''\<rparr>,
      \<lparr>emotion_seq = ''calm'', timestamp_seq = 1800000, fragmentId_seq = ''f3''\<rparr>,
      \<lparr>emotion_seq = ''anxious'', timestamp_seq = 2400000, fragmentId_seq = ''f4''\<rparr>,
      \<lparr>emotion_seq = ''calm'', timestamp_seq = 3000000, fragmentId_seq = ''f5''\<rparr>]"
  by (simp add: emotionSequencesOf_def dominantTag_def alt_defs)

lemma alternating_cycles:
  "emotionCyclesOf (emotionSequencesOf alternating)
     = [(''calm-anxious-calm'', 2), (''anxious-calm-anxious'', 1)]"
  unfolding alternating_sequences
  by (simp add: emotionCyclesOf_def patternAt_def increment_def)

lemma alternating_result:
  "map (\<lambda>i. (description i, relatedFragments i)) (detectEmotionalCycles rt k alternating)
     = [(''Recurring emotional pattern: calm'' @ arrow @ ''anxious'' @ arrow @ ''calm'',
         [''f1'', ''f2'', ''f3'', ''f4'', ''f5''])]"
  unfolding detectEmotionalCycles_content alternating_cycles
  unfolding alternating_sequences
  by simp

lemma sum_resonance_bounds:
  assumes "\<forall>r \<in> set rs. 0 \<le> resonance r \<and> resonance r \<le> 5"
  shows "0 \<le> sum_list (map resonance rs) \<and> sum_list (map resonance rs) \<le> 5 * real (length rs)"
  using assms by (induction rs) (auto simp: algebra_simps)

lemma avgRating_bounds:
  assumes "\<forall>r \<in> set rs. 0 \<le> resonance r \<and> resonance r \<le> 5"
  shows "0 \<le> (if length rs > 0 then sum_list (map resonance rs) / real (length rs) else 3)
    \<and> (if length rs > 0 then sum_list (map resonance rs) / real (length rs) else 3) \<le> 5"
proof (cases "length rs > 0")
  case True
  then have pos: "0 < real (length rs)" by simp
  from sum_resonance_bounds [OF assms]
  have "0 \<le> sum_list (map resonance rs) / real (length rs)"
    and "sum_list (map resonance rs) / real (length rs) \<le> 5"
    using pos by (simp_all add: divide_le_eq)
  with True show ?thesis by simp
next
  case False
  then show ?thesis by simp
qed

lemma helpful_share_bounds:
  "0 \<le> real (length (filter helpful rs)) / real (max (length rs) 1)
   \<and> real (length (filter helpful rs)) / real (max (length rs) 1) \<le> 1"
proof -
  have "length (filter helpful rs) \<le> max (length rs) 1"
    by (simp add: le_max_iff_disj)
  then have "real (length (filter helpful rs)) \<le> real (max (length rs) 1)"
    by (simp only: of_nat_le_iff)
  moreover have "0 < real (max (length rs) 1)" by simp
  ultimately show ?thesis by (simp add: divide_le_eq)
qed

lemma recency_bounds:
  assumes "t \<le> real_of_int now"
  shows "0 \<le> max 0 (1 - (real_of_int now - t) / (30 * 24 * 60 * 60 * 1000))
    \<and> max 0 (1 - (real_of_int now - t) / (30 * 24 * 60 * 60 * 1000)) \<le> (1::real)"
  using assms by simp

lemma calculateMoodScore_bounds:
  assumes res: "\<forall>r \<in> set (ratings f). 0 \<le> resonance r \<and> resonance r \<le> 5"
    and tm: "timestamp_frag f \<le> real_of_int now"
  shows "0 \<le> calculateMoodScore now f \<and> calculateMoodScore now f \<le> 1"
proof -
  define a where "a = (if length (ratings f) > 0
     then sum_list (map resonance (ratings f)) / real (length (ratings f)) else 3)"
  define h where "h = real (length (filter helpful (ratings f))) / real (max (length (ratings f)) 1)"
  define c where "c = max 0 (1 - (real_of_int now - timestamp_frag f) / (30 * 24 * 60 * 60 * 1000))"
  have a: "0 \<le> a \<and> a \<le> 5" unfolding a_def by (rule avgRating_bounds [OF res])
  have h: "0 \<le> h \<and> h \<le> 1" unfolding h_def by (rule helpful_share_bounds)
  have c: "0 \<le> c \<and> c \<le> 1" unfolding c_def by (rule recency_bounds [OF tm])
  have eq: "calculateMoodScore now f = (a / 5) * 0.4 + h * 0.4 + c * 0.2"
    by (simp add: calculateMoodScore_def Let_def a_def h_def c_def)
  from a h c show ?thesis unfolding eq by simp
qed

lemma findContrastLearning_scores:
  "findContrastLearning m fs = Inr cs \<Longrightarrow> r \<in> set cs \<Longrightarrow> score r = 0.7"
  by (auto simp: findContrastLearning_def filterWithoutIncludes_def
      split: jsValue.splits if_splits)

lemma findGrowthOpportunities_scores:
  "r \<in> set (findGrowthOpportunities fs ps) \<Longrightarrow> score r = 0.6"
  by (auto simp: findGrowthOpportunities_def Let_def)

lemma findPatternCompletions_scores:
  assumes "\<forall>p \<in> set ps. 0 \<le> confidence p \<and> confidence p \<le> 1"
    and "r \<in> set (findPatternCompletions m fs ps)"
  shows "0 \<le> score r \<and> score r \<le> 1"
  using assms by (fastforce simp: findPatternCompletions_def split: if_splits)

lemma generateRecommendations_members:
  assumes "generateRecommendations rt m fs ps = Inr rs" and "r \<in> set rs"
  shows "(\<exists>j f. f \<in> set fs \<and> score r = calculateMoodScore (dateNow rt j) f)
    \<or> r \<in> set (findPatternCompletions m fs ps)
    \<or> (\<exists>cs. findContrastLearning m fs = Inr cs \<and> r \<in> set cs)
    \<or> r \<in> set (findGrowthOpportunities fs ps)"
proof -
  from assms(1) obtain cs where cs: "findContrastLearning m fs = Inr cs"
    by (cases "findContrastLearning m fs") (simp_all add: generateRecommendations_def Let_def)
  define mm where "mm = map (\<lambda>(j, f).
       \<lparr>fragmentId = id_frag f, score = calculateMoodScore (dateNow rt j) f,
        reason = ''Matches your current '' @ m @ '' mood and has been helpful before'',
        type_rec = mood_match\<rparr>)
     (enumerate 0 (filter (\<lambda>f. mood (metadata f) = m \<and> list_ex helpful (ratings f)) fs))"
  from assms(1) cs have rs: "rs = take 10 (sort_key (\<lambda>r. - score r)
      (mm @ findPatternCompletions m fs ps @ cs @ findGrowthOpportunities fs ps))"
    by (simp add: generateRecommendations_def Let_def mm_def)
  from assms(2) have "r \<in> set (mm @ findPatternCompletions m fs ps @ cs @ findGrowthOpportunities fs ps)"
    unfolding rs using set_take_subset by fastforce
  then consider "r \<in> set mm" | "r \<in> set (findPatternCompletions m fs ps)" | "r \<in> set cs"
    | "r \<in> set (findGrowthOpportunities fs ps)"
    by auto
  then show ?thesis
  proof cases
    case 1
    then obtain j f where "(j, f) \<in> set (enumerate 0
        (filter (\<lambda>f. mood (metadata f) = m \<and> list_ex helpful (ratings f)) fs))"
      and "score r = calculateMoodScore (dateNow rt j) f"
      unfolding mm_def by auto
    moreover from this(1) have "f \<in> set fs"
      by (auto simp: in_set_enumerate_eq dest: nth_mem)
    ultimately show ?thesis by blast
  next
    case 2 then show ?thesis by simp
  next
    case 3 with cs show ?thesis by simp
  next
    case 4 then show ?thesis by simp
  qed
qed

lemma generateRecommendations_top10_sorted:
  assumes "generateRecommendations rt m fs ps = Inr rs"
  shows "length rs \<le> 10 \<and> sorted_wrt (\<lambda>a b. score b \<le> score a) rs"
proof -
  from assms obtain xs where rs: "rs = take 10 (sort_key (\<lambda>r. - score r) xs)"
    by (cases "findContrastLearning m fs") (auto simp: generateRecommendations_def Let_def)
  have "sorted (map (\<lambda>r. - score r) (sort_key (\<lambda>r. - score r) xs))"
    by (rule sorted_sort_key)
  then have "sorted_wrt (\<lambda>a b. score b \<le> score a) (sort_key (\<lambda>r. - score r) xs)"
    by (simp add: sorted_map)
  then have "sorted_wrt (\<lambda>a b. score b \<le> score a) rs"
    unfolding rs by (rule sorted_wrt_take)
  moreover have "length rs \<le> 10" unfolding rs by simp
  ultimately show ?thesis by simp
qed

lemma generateRecommendations_returns:
  assumes "map_of objectPrototype m = None"
  shows "\<exists>rs. generateRecommendations rt m fs ps = Inr rs"
proof -
  have "\<exists>cs. findContrastLearning m fs = Inr cs"
    using assms by (simp add: findContrastLearning_def readProperty_def split: option.splits)
  then show ?thesis
    by (auto simp: generateRecommendations_def Let_def)
qed

lemmas rec_defs = generateRecommendations_def findContrastLearning_def readProperty_def
  emotionOpposites_def objectPrototype_def filterWithoutIncludes_def findPatternCompletions_def
  findGrowthOpportunities_def calculateMoodScore_def

lemma map_of_increment:
  "map_of (increment k m) =
     (map_of m)(k \<mapsto> (case map_of m k of None \<Rightarrow> 0 | Some c \<Rightarrow> c) + 1)"
  by (simp add: increment_def update_conv')

lemma distinct_increment: "distinct (map fst m) \<Longrightarrow> distinct (map fst (increment k m))"
  by (simp add: increment_def distinct_update)

lemma tags_fold_flat:
  "foldl (\<lambda>m fragment. foldl (\<lambda>m tag. increment (emotion tag) m) m (tags fragment)) m fs
     = foldl (\<lambda>m e. increment e m) m (concat (map (\<lambda>f. map emotion (tags f)) fs))"
  by (induction fs arbitrary: m) (simp_all add: foldl_map)

lemma distinct_counts:
  "distinct (map fst m) \<Longrightarrow> distinct (map fst (foldl (\<lambda>m e. increment e m) m es))"
  by (induction es arbitrary: m) (simp_all add: distinct_increment)

lemma map_of_counts:
  "map_of (foldl (\<lambda>m e. increment e m) m es) e =
     (if e \<in> set es
      then Some ((case map_of m e of None \<Rightarrow> 0 | Some c \<Rightarrow> c) + count_list es e)
      else map_of m e)"
  by (induction es arbitrary: m) (auto simp: map_of_increment)

lemma distinct_count_one:
  "distinct xs \<Longrightarrow> count_list xs x = (if x \<in> set xs then 1 else 0)"
  by (induction xs) auto

lemma count_in_fragments:
  assumes "\<forall>f \<in> set fs. distinct (map emotion (tags f))"
  shows "count_list (concat (map (\<lambda>f. map emotion (tags f)) fs)) e
           = length (filter (\<lambda>f. e \<in> emotion ` set (tags f)) fs)"
  using assms
proof (induction fs)
  case Nil
  show ?case by simp
next
  case (Cons f fs)
  have "distinct (map emotion (tags f))" using Cons.prems by simp
  then have one: "count_list (map emotion (tags f)) e = (if e \<in> emotion ` set (tags f) then 1 else 0)"
    by (simp add: distinct_count_one)
  show ?case using Cons one by simp
qed

lemma threshold_sixty: "(\<lceil>real n * 0.6\<rceil> \<le> int c) = (3 * n \<le> 5 * c)"
proof -
  have "(\<lceil>real n * 0.6\<rceil> \<le> int c) = (real n * 0.6 \<le> real c)"
    by (simp add: ceiling_le_iff)
  also have "\<dots> = (3 * real n \<le> 5 * real c)" by (simp add: field_simps)
  also have "\<dots> = (real (3 * n) \<le> real (5 * c))" by simp
  also have "\<dots> = (3 * n \<le> 5 * c)" by (simp only: of_nat_le_iff)
  finally show ?thesis .
qed

lemma findCommonEmotions_without_repeated_tags:
  assumes "\<forall>f \<in> set fs. distinct (map emotion (tags f))"
  shows "set (findCommonEmotions fs) = set (emotionsOfSixtyPercent fs)"
proof -
  define es where "es = concat (map (\<lambda>f. map emotion (tags f)) fs)"
  define counts where "counts = foldl (\<lambda>m e. increment e m) [] es"
  have d: "distinct (map fst counts)"
    unfolding counts_def by (rule distinct_counts) simp
  have look: "map_of counts e = (if e \<in> set es then Some (count_list es e) else None)" for e
    unfolding counts_def by (simp add: map_of_counts)
  have mem: "((e, c) \<in> set counts) = (e \<in> set es \<and> c = count_list es e)" for e c
    unfolding map_of_eq_Some_iff [OF d, symmetric] look by auto
  have cnt: "count_list es e = length (filter (\<lambda>f. e \<in> emotion ` set (tags f)) fs)" for e
    unfolding es_def by (rule count_in_fragments [OF assms])
  have fce: "findCommonEmotions fs
      = map fst (filter (\<lambda>(e, c). \<lceil>real (length fs) * 0.6\<rceil> \<le> int c) counts)"
    unfolding findCommonEmotions_def Let_def tags_fold_flat counts_def es_def ..
  have "set (findCommonEmotions fs)
          = {e. \<exists>c. (e, c) \<in> set counts \<and> \<lceil>real (length fs) * 0.6\<rceil> \<le> int c}"
    unfolding fce by force
  also have "\<dots> = {e. e \<in> set es \<and> 3 * length fs \<le> 5 * count_list es e}"
    unfolding mem threshold_sixty by blast
  also have "\<dots> = set (emotionsOfSixtyPercent fs)"
    unfolding emotionsOfSixtyPercent_def es_def [symmetric] cnt by auto
  finally show ?thesis .
qed

subsection \<open>C1: saving and reading back\<close>

text \<open>
  Claim C1 as stated, for every fragment: after a successful \<open>saveFragment f\<close>,
  \<open>getFragment (id f)\<close> returns \<open>f\<close>. It fails for \<open>clashFragment\<close>: the blob store
  has one key space for all payloads, the response's blob is written after the
  variation's under the same key \<open>x1\<close>, and the fragment read back carries the
  response's payload \<open>CCC\<close> in its variation.
\<close>

theorem C1_roundtrip_counterexample:
  "fst (saveFragment noFailure (Some emptyDatabase) clashFragment) = Inr ()
   \<and> getFragment noFailure (snd (saveFragment noFailure (Some emptyDatabase) clashFragment))
        (id_frag clashFragment)
       = Inr (Some (clashFragment\<lparr>variations := [exVariation ''x1'' ''CCC'']\<rparr>))
   \<and> clashFragment\<lparr>variations := [exVariation ''x1'' ''CCC'']\<rparr> \<noteq> clashFragment"
  by (simp add: store_defs ex_defs)

text \<open>
  C1, amended: when the fragment's id, its variations' ids and its responses' ids are
  pairwise different, then after a successful \<open>saveFragment f\<close> every
  \<open>getFragment (id f)\<close> whose read requests succeed returns a fragment equal to \<open>f\<close>
  in every field, the own payload, each variation's payload and each response's
  payload included.
\<close>

theorem C1_roundtrip:
  assumes ok: "saveFragment fails s f = (Inr (), s')"
    and ids: "distinct (id_frag f # map id_var (variations f) @ map id_resp (responses f))"
    and reads: "\<forall>st k. \<not> fails' (Get st k)"
  shows "getFragment fails' s' (id_frag f) = Inr (Some f)"
proof -
  from ok obtain d where s: "s = Some d"
    by (cases s) (simp_all add: saveFragment_def)
  obtain r1 d1 where p1: "saveVideoBlob fails (id_frag f) (blob_frag f) d = (r1, d1)"
    by (cases "saveVideoBlob fails (id_frag f) (blob_frag f) d")
  obtain r2 d2 where p2: "saveVariationBlobs fails (variations f) d1 = (r2, d2)"
    by (cases "saveVariationBlobs fails (variations f) d1")
  obtain r3 d3 where p3: "saveResponseBlobs fails (responses f) d2 = (r3, d3)"
    by (cases "saveResponseBlobs fails (responses f) d2")
  from ok s p1 obtain u1 where r1: "r1 = Inr u1"
    by (cases r1) (simp_all add: saveFragment_def)
  from ok s p1 r1 p2 obtain u2 where r2: "r2 = Inr u2"
    by (cases r2) (simp_all add: saveFragment_def)
  from ok s p1 r1 p2 r2 p3 obtain u3 where r3: "r3 = Inr u3"
    by (cases r3) (simp_all add: saveFragment_def)
  from ok s p1 r1 p2 r2 p3 r3
  have s': "s' = Some (d3\<lparr>fragments_db := store_put (id_frag f) (fragmentToSave f) (fragments_db d3)\<rparr>)"
    by (simp add: saveFragment_def split: if_splits)
  define d4 where "d4 = d3\<lparr>fragments_db := store_put (id_frag f) (fragmentToSave f) (fragments_db d3)\<rparr>"
  have blobs4: "resultBlob d4 k = resultBlob d3 k" for k
    by (simp add: d4_def resultBlob_def)
  have own: "resultBlob d4 (id_frag f) = blob_frag f"
  proof -
    have "resultBlob d3 (id_frag f) = resultBlob d2 (id_frag f)"
      using saveResponseBlobs_other [OF p3 [unfolded r3]] ids by auto
    also have "\<dots> = resultBlob d1 (id_frag f)"
      using saveVariationBlobs_other [OF p2 [unfolded r2]] ids by auto
    also have "\<dots> = blob_frag f"
      using saveVideoBlob_ok [OF p1 [unfolded r1]] by simp
    finally show ?thesis by (simp add: blobs4)
  qed
  have var: "resultBlob d4 (id_var v) = blob_var v" if "v \<in> set (variations f)" for v
  proof -
    have "id_var v \<notin> id_resp ` set (responses f)" using ids that by auto
    then have "resultBlob d3 (id_var v) = resultBlob d2 (id_var v)"
      using saveResponseBlobs_other [OF p3 [unfolded r3]] by simp
    also have "\<dots> = blob_var v"
      using saveVariationBlobs_own [OF p2 [unfolded r2] _ that] ids by simp
    finally show ?thesis by (simp add: blobs4)
  qed
  have resp: "resultBlob d4 (id_resp r) = blob_resp r" if "r \<in> set (responses f)" for r
    using saveResponseBlobs_own [OF p3 [unfolded r3] _ that] ids by (simp add: blobs4)
  have vs: "map (\<lambda>v. v\<lparr>blob_var := resultBlob d4 (id_var v)\<rparr>) (variations (fragmentToSave f))
              = variations f"
    by (simp add: fragmentToSave_def comp_def var map_idI)
  have rs: "map (\<lambda>r. r\<lparr>blob_resp := resultBlob d4 (id_resp r)\<rparr>) (responses (fragmentToSave f))
              = responses f"
    by (simp add: fragmentToSave_def comp_def resp map_idI)
  have idf: "id_frag (fragmentToSave f) = id_frag f"
    by (simp add: fragmentToSave_def)
  have get: "store_get (fragments_db d4) (id_frag f) = Some (fragmentToSave f)"
    by (simp add: d4_def store_get_put)
  have "restoreBlobs fails' d4 (fragmentToSave f) = Inr f"
    using reads by (simp add: restoreBlobs_ok vs rs idf own) (simp add: fragmentToSave_def)
  then show ?thesis
    using reads get by (simp add: getFragment_def s' d4_def [symmetric])
qed

theorem C1_roundtrip_witness:
  "fst (saveFragment noFailure (Some emptyDatabase) exFragment) = Inr ()
   \<and> getFragment noFailure (snd (saveFragment noFailure (Some emptyDatabase) exFragment)) ''f1''
       = Inr (Some exFragment)"
proof -
  have f: "fst (saveFragment noFailure (Some emptyDatabase) exFragment) = Inr ()"
    by (simp add: store_defs ex_defs)
  then have ok: "saveFragment noFailure (Some emptyDatabase) exFragment
              = (Inr (), snd (saveFragment noFailure (Some emptyDatabase) exFragment))"
    by (simp add: prod_eq_iff)
  have ids: "distinct (id_frag exFragment # map id_var (variations exFragment)
               @ map id_resp (responses exFragment))"
    by (simp add: ex_defs)
  have reads: "\<forall>st k. \<not> noFailure (Get st k)"
    by (simp add: noFailure_def)
  have "id_frag exFragment = ''f1''" by (simp add: ex_defs)
  with C1_roundtrip [OF ok ids reads] f show ?thesis by simp
qed

subsection \<open>C2: a payload that is missing from the blob store\<close>

text \<open>
  Claim C2 as stated: when a metadata record names a payload id that the blob store
  does not hold, \<open>getFragment\<close> and \<open>getAllFragments\<close> fail with an error. They do
  not: \<open>getVideoBlob\<close> resolves to \<open>null\<close> for an unknown key, and both operations
  succeed on \<open>orphanDatabase\<close>, returning \<open>f1\<close> with its variation's payload null.
\<close>

theorem C2_missing_payload_counterexample:
  "store_get (fragments_db orphanDatabase) ''f1'' = Some orphanMetadata
   \<and> id_var (hd (variations orphanMetadata)) = ''v1''
   \<and> store_get (videoBlobs_db orphanDatabase) ''v1'' = None
   \<and> getFragment noFailure (Some orphanDatabase) ''f1''
       = Inr (Some (exFragment\<lparr>variations := [(exVariation ''v1'' ''BBB'')\<lparr>blob_var := None\<rparr>]\<rparr>))
   \<and> getAllFragments noFailure (Some orphanDatabase)
       = Inr [exFragment\<lparr>variations := [(exVariation ''v1'' ''BBB'')\<lparr>blob_var := None\<rparr>]\<rparr>]"
  by (simp add: store_defs ex_defs)

text \<open>
  C2, amended: when no read request fails, \<open>getFragment\<close> and \<open>getAllFragments\<close>
  succeed and return each metadata record with every payload field (own, each
  variation's, each response's) set to what the blob store holds under that id, which
  is null for an id that is absent from the blob store.
\<close>

theorem C2_missing_payload_is_null:
  assumes reads: "\<forall>st k. \<not> fails (Get st k)" and all: "\<not> fails (GetAll FragmentsStore)"
  shows "(store_get (videoBlobs_db d) k = None \<longrightarrow> resultBlob d k = None)
    \<and> (store_get (fragments_db d) i = Some m \<longrightarrow>
         getFragment fails (Some d) i =
           Inr (Some (m\<lparr>blob_frag := resultBlob d (id_frag m),
              variations := map (\<lambda>v. v\<lparr>blob_var := resultBlob d (id_var v)\<rparr>) (variations m),
              responses := map (\<lambda>r. r\<lparr>blob_resp := resultBlob d (id_resp r)\<rparr>) (responses m)\<rparr>)))
    \<and> getAllFragments fails (Some d) =
           Inr (map (\<lambda>m. m\<lparr>blob_frag := resultBlob d (id_frag m),
              variations := map (\<lambda>v. v\<lparr>blob_var := resultBlob d (id_var v)\<rparr>) (variations m),
              responses := map (\<lambda>r. r\<lparr>blob_resp := resultBlob d (id_resp r)\<rparr>) (responses m)\<rparr>)
             (store_getAll (fragments_db d)))"
  using reads all
  by (simp add: getFragment_def getAllFragments_def restoreBlobs_ok restoreAll_ok resultBlob_def)

theorem C2_missing_payload_is_null_witness:
  "getFragment noFailure (Some orphanDatabase) ''f1''
       = Inr (Some (exFragment\<lparr>variations := [(exVariation ''v1'' ''BBB'')\<lparr>blob_var := None\<rparr>]\<rparr>))"
proof -
  have reads: "\<forall>st k. \<not> noFailure (Get st k)" and all: "\<not> noFailure (GetAll FragmentsStore)"
    by (simp_all add: noFailure_def)
  have g: "store_get (fragments_db orphanDatabase) ''f1'' = Some orphanMetadata"
    and b: "store_get (videoBlobs_db orphanDatabase) ''v1'' = None"
    by (simp_all add: store_defs ex_defs)
  have "getFragment noFailure (Some orphanDatabase) ''f1'' =
           Inr (Some (orphanMetadata\<lparr>blob_frag := resultBlob orphanDatabase (id_frag orphanMetadata),
              variations := map (\<lambda>v. v\<lparr>blob_var := resultBlob orphanDatabase (id_var v)\<rparr>)
                (variations orphanMetadata),
              responses := map (\<lambda>r. r\<lparr>blob_resp := resultBlob orphanDatabase (id_resp r)\<rparr>)
                (responses orphanMetadata)\<rparr>))"
    using C2_missing_payload_is_null [OF reads all, of orphanDatabase "''v1''" "''f1''" orphanMetadata] g
    by blast
  then show ?thesis
    by (simp add: ex_defs fragmentToSave_def resultBlob_def store_get_def)
qed

subsection \<open>C3: a save that fails partway\<close>

text \<open>
  Claim C3 as stated: a failed \<open>saveFragment\<close> leaves the state persisted for that
  fragment id unchanged. It does not: every blob is written in a transaction of its
  own before the metadata record, and nothing is rolled back. In \<open>savedState\<close> the
  fragment \<open>f1\<close> reads back as \<open>exFragment\<close>; saving \<open>editedFragment\<close> fails at the
  metadata write, and afterwards \<open>f1\<close> reads back with the old metadata and the new
  payload \<open>ZZZ\<close>.
\<close>

theorem C3_failed_save_counterexample:
  "getFragment noFailure savedState ''f1'' = Inr (Some exFragment)
   \<and> fst (saveFragment metadataWriteFails savedState editedFragment) = Inl RequestError
   \<and> getFragment noFailure (snd (saveFragment metadataWriteFails savedState editedFragment)) ''f1''
       = Inr (Some (exFragment\<lparr>blob_frag := Some ''ZZZ''\<rparr>))
   \<and> exFragment\<lparr>blob_frag := Some ''ZZZ''\<rparr> \<noteq> exFragment"
  by (simp add: store_defs ex_defs)

text \<open>
  C3, amended: a \<open>saveFragment f\<close> that fails leaves the metadata store unchanged (no
  metadata record is overwritten or added), leaves unchanged every blob stored under
  a key that is not a payload id of \<open>f\<close>, and the payloads of \<open>f\<close> written before
  the failing request stay written: the blob store afterwards is the blob store
  before with the payload writes that precede the first failing request applied in
  their order.
\<close>

theorem C3_failed_save_keeps_metadata:
  assumes "saveFragment fails (Some d) f = (Inl e, Some d')"
  shows "fragments_db d' = fragments_db d
    \<and> (\<forall>k. k \<notin> set (id_frag f # map id_var (variations f) @ map id_resp (responses f))
          \<longrightarrow> store_get (videoBlobs_db d') k = store_get (videoBlobs_db d) k)
    \<and> videoBlobs_db d' =
         foldl (\<lambda>s (k, b). store_put k b s) (videoBlobs_db d)
           (takeWhile (\<lambda>(k, b). \<not> fails (Put VideoBlobsStore k)) (payloadWrites f))"
proof -
  have "map_option fragments_db (snd (saveFragment fails (Some d) f)) = map_option fragments_db (Some d)"
    using saveFragment_fragments_on_failure [of fails "Some d" f e] assms by simp
  then have "fragments_db d' = fragments_db d" using assms by simp
  then show ?thesis
    using saveFragment_other_blobs [OF _ assms] saveFragment_blobs_written [OF assms] by blast
qed

theorem C3_failed_save_keeps_metadata_witness:
  "fragments_db (the (snd (saveFragment metadataWriteFails savedState editedFragment)))
     = fragments_db (the savedState)
   \<and> store_get (videoBlobs_db (the (snd (saveFragment metadataWriteFails savedState editedFragment)))) ''g7''
     = store_get (videoBlobs_db (the savedState)) ''g7''
   \<and> store_get (videoBlobs_db (the savedState)) ''f1'' = Some (Some ''AAA'')
   \<and> store_get (videoBlobs_db (the (snd (saveFragment metadataWriteFails savedState editedFragment)))) ''f1''
     = Some (Some ''ZZZ'')"
proof -
  let ?d' = "the (snd (saveFragment metadataWriteFails savedState editedFragment))"
  have res: "saveFragment metadataWriteFails (Some (the savedState)) editedFragment
     = (Inl RequestError, Some ?d')"
    by (simp add: store_defs ex_defs)
  have k: "''g7'' \<notin> set (id_frag editedFragment # map id_var (variations editedFragment)
             @ map id_resp (responses editedFragment))"
    by (simp add: ex_defs)
  have before: "store_get (videoBlobs_db (the savedState)) ''f1'' = Some (Some ''AAA'')"
    by (simp add: store_defs ex_defs)
  have written: "store_get
      (foldl (\<lambda>s (k, b). store_put k b s) (videoBlobs_db (the savedState))
        (takeWhile (\<lambda>(k, b). \<not> metadataWriteFails (Put VideoBlobsStore k))
           (payloadWrites editedFragment))) ''f1'' = Some (Some ''ZZZ'')"
    by (simp add: payloadWrites_def store_defs ex_defs)
  from C3_failed_save_keeps_metadata [OF res]
  have meta: "fragments_db ?d' = fragments_db (the savedState)"
    and other: "store_get (videoBlobs_db ?d') ''g7'' = store_get (videoBlobs_db (the savedState)) ''g7''"
    and blobs: "videoBlobs_db ?d' =
         foldl (\<lambda>s (k, b). store_put k b s) (videoBlobs_db (the savedState))
           (takeWhile (\<lambda>(k, b). \<not> metadataWriteFails (Put VideoBlobsStore k))
              (payloadWrites editedFragment))"
    using k by blast+
  from written have "store_get (videoBlobs_db ?d') ''f1'' = Some (Some ''ZZZ'')"
    by (simp only: blobs)
  with meta other before show ?thesis by (simp only: simp_thms)
qed

subsection \<open>C4: emotions common to the high-resonance fragments\<close>

text \<open>
  Claim C4: the emotions that the resonance insight reports are those that at least
  60% of the high-resonance fragments carry, a fragment counting once for an emotion.
  The code counts tags, not fragments, against the threshold it computes from the
  number of fragments (the source comments it as "Appear in 60% of fragments"). On
  \<open>doubleTagScenario\<close> all three fragments are high-resonance and the threshold is 2;
  the two \<open>calm\<close> tags of the first fragment reach it, so \<open>calm\<close> is reported,
  though one fragment of three carries it. Where no fragment carries two tags of one
  emotion, the code reports the emotions of the claim
  (\<open>findCommonEmotions_without_repeated_tags\<close>). Evaluated on the input above:
\<close>

theorem C4_tags_counted_not_fragments:
  "findCommonEmotions doubleTagScenario = [''calm'']
   \<and> emotionsOfSixtyPercent doubleTagScenario = []
   \<and> map description (detectResonanceClusters exRuntime 0 doubleTagScenario)
       = [''Strong resonance with calm emotional states'',
          ''Consistent positive response to reflective moods'']"
  by (simp add: findCommonEmotions_def emotionsOfSixtyPercent_def detectResonanceClusters_def
      findCommonMoods_def increment_def doubleTagScenario_def engine_ex_defs)

subsection \<open>C5: calm, anxious, calm\<close>

text \<open>
  Claim C5: for three fragments in time order whose dominant emotions are calm,
  anxious, calm, the analysis produces no \<open>emotional_cycle\<close> insight (the one window
  of three occurs once) and no \<open>trigger_pattern\<close> insight (each of the two transitions
  occurs once): both detectors return nothing on the three fragments, and the whole
  analysis holds no insight of either type.
\<close>

theorem C5_no_cycle_no_trigger:
  assumes t1: "tags f1 \<noteq> []" and t2: "tags f2 \<noteq> []" and t3: "tags f3 \<noteq> []"
    and e1: "emotion (dominantTag (tags f1)) = ''calm''"
    and e2: "emotion (dominantTag (tags f2)) = ''anxious''"
    and e3: "emotion (dominantTag (tags f3)) = ''calm''"
    and sorted: "timestamp_frag f1 \<le> timestamp_frag f2" "timestamp_frag f2 \<le> timestamp_frag f3"
  shows "detectEmotionalCycles rt k [f1, f2, f3] = []
    \<and> detectTriggerPatterns rt k [f1, f2, f3] = []
    \<and> filter (\<lambda>i. type_ins i = emotional_cycle \<or> type_ins i = trigger_pattern)
          (analyzeEmotionalPatterns rt [f1, f2, f3]) = []"
proof -
  have cyc: "detectEmotionalCycles rt k [f1, f2, f3] = []" for k
    using t1 t2 t3 e1 e2 e3
    by (simp add: detectEmotionalCycles_def emotionSequencesOf_def emotionCyclesOf_def
        patternAt_def increment_def)
  have trg: "detectTriggerPatterns rt k [f1, f2, f3] = []" for k
    using t1 t2 t3 e1 e2 e3
    by (simp add: detectTriggerPatterns_def emotionTransitionsOf_def transitionGroupsOf_def)
  have srt: "sort_key timestamp_frag [f1, f2, f3] = [f1, f2, f3]"
    using sorted by (intro sort_key_id_if_sorted) simp
  have gr: "detectGrowthTrends rt k [f1, f2, f3] = []" for k
    by (simp add: detectGrowthTrends_def)
  have "filter (\<lambda>i. type_ins i = emotional_cycle \<or> type_ins i = trigger_pattern)
          (detectResonanceClusters rt k [f1, f2, f3]) = []" for k
    by (auto simp: filter_empty_conv dest: detectResonanceClusters_type)
  then have "filter (\<lambda>i. type_ins i = emotional_cycle \<or> type_ins i = trigger_pattern)
          (analyzeEmotionalPatterns rt [f1, f2, f3]) = []"
    unfolding analyzeEmotionalPatterns_def srt by (simp add: Let_def cyc trg gr)
  with cyc trg show ?thesis by simp
qed

theorem C5_no_cycle_no_trigger_witness:
  "detectEmotionalCycles exRuntime 0 calmAnxiousCalm = []
   \<and> detectTriggerPatterns exRuntime 0 calmAnxiousCalm = []
   \<and> filter (\<lambda>i. type_ins i = emotional_cycle \<or> type_ins i = trigger_pattern)
          (analyzeEmotionalPatterns exRuntime calmAnxiousCalm) = []"
proof -
  let ?f1 = "taggedFragment ''f1'' 1 ''calm''"
  let ?f2 = "taggedFragment ''f2'' 2 ''anxious''"
  let ?f3 = "taggedFragment ''f3'' 3 ''calm''"
  have t: "tags ?f1 \<noteq> []" "tags ?f2 \<noteq> []" "tags ?f3 \<noteq> []"
    by (simp_all add: ex5_defs)
  have e: "emotion (dominantTag (tags ?f1)) = ''calm''"
    "emotion (dominantTag (tags ?f2)) = ''anxious''"
    "emotion (dominantTag (tags ?f3)) = ''calm''"
    by (simp_all add: ex5_defs)
  have s: "timestamp_frag ?f1 \<le> timestamp_frag ?f2" "timestamp_frag ?f2 \<le> timestamp_frag ?f3"
    by (simp_all add: ex5_defs)
  show ?thesis
    unfolding calmAnxiousCalm_def
    using C5_no_cycle_no_trigger [OF t e s, of exRuntime 0] .
qed

subsection \<open>C6: five fragments of rising clarity\<close>

text \<open>
  Claim C6: for five fragments dated day 1 to day 5 with clarity 3, 4, 5, 7, 9, without
  tags and ratings and with every other field at its default, the analysis returns
  exactly one insight: the \<open>growth_trend\<close> for clarity (its id starts with
  \<open>growth-clarity-\<close>, the slope is 1.5), whose related fragments are the five ids;
  it returns no insight of another type and none for energy.
\<close>

theorem C6_clarity_growth_only:
  "map (\<lambda>i. (type_ins i, description i, relatedFragments i))
     (analyzeEmotionalPatterns rt (clarityScenario a b c d e))
   = [(growth_trend, ''Increasing self-clarity over time (1.50 improvement rate)'',
       [a, b, c, d, e])]
   \<and> map id_ins (analyzeEmotionalPatterns rt (clarityScenario a b c d e))
       = [''growth-clarity-'' @ numberToString (dateNow rt 0)]"
  by (simp add: analyzeEmotionalPatterns_def clarityScenario_sorted
      clarityScenario_cycles clarityScenario_triggers clarityScenario_resonance
      detectGrowthTrends_def clarityScenario_fields slope_rising slope_constant toFixed2_rising)

theorem C6_clarity_growth_only_witness:
  "map (\<lambda>i. (type_ins i, description i, relatedFragments i))
     (analyzeEmotionalPatterns exRuntime (clarityScenario ''f1'' ''f2'' ''f3'' ''f4'' ''f5''))
   = [(growth_trend, ''Increasing self-clarity over time (1.50 improvement rate)'',
       [''f1'', ''f2'', ''f3'', ''f4'', ''f5''])]
   \<and> map id_ins
        (analyzeEmotionalPatterns exRuntime (clarityScenario ''f1'' ''f2'' ''f3'' ''f4'' ''f5''))
       = [''growth-clarity-1700000000000'']"
proof -
  have "''growth-clarity-'' @ numberToString (dateNow exRuntime 0) = ''growth-clarity-1700000000000''"
    by (simp add: exRuntime_def numberToString_def digitsOf.simps)
  with C6_clarity_growth_only [of exRuntime "''f1''" "''f2''" "''f3''" "''f4''" "''f5''"]
  show ?thesis by (simp only:)
qed

subsection \<open>C7: at most ten recommendations, in descending order of score\<close>

text \<open>
  Claim C7: for every mood string, fragment collection and pattern list,
  \<open>generateRecommendations\<close> returns at most 10 entries, sorted by score in
  non-increasing order. Every list that the call returns is so
  (\<open>generateRecommendations_top10_sorted\<close>), and the call returns for every mood that
  is not the name of a member of \<open>Object.prototype\<close>
  (\<open>generateRecommendations_returns\<close>). For the mood \<open>constructor\<close> the lookup in
  the table of opposites finds the inherited function, whose \<open>length\<close> is 1 and
  which has no \<open>includes\<close>, and with a tagged fragment in the collection the call
  throws a TypeError instead of returning a list. Evaluated on that input:
\<close>

theorem C7_inherited_name_throws:
  "generateRecommendations exRuntime ''constructor'' calmAnxiousCalm [] = Inl TypeError"
  by (simp add: generateRecommendations_def findContrastLearning_def readProperty_def
      emotionOpposites_def objectPrototype_def filterWithoutIncludes_def calmAnxiousCalm_def
      engine_ex_defs)

subsection \<open>C8: cycle detection does not depend on the clock or the random numbers\<close>

text \<open>
  Claim C8: two runs of the analysis on the same fragments, each with a clock and
  random numbers of its own, produce the same \<open>emotional_cycle\<close> insights up to
  their ids and time stamps: the same descriptions with the same related fragments,
  in the same order. The same holds for the cycle detector alone, wherever in a run
  it starts.
\<close>

theorem C8_cycles_deterministic:
  "map (\<lambda>i. (description i, relatedFragments i))
     (filter (\<lambda>i. type_ins i = emotional_cycle) (analyzeEmotionalPatterns rt1 fragments))
   = map (\<lambda>i. (description i, relatedFragments i))
       (filter (\<lambda>i. type_ins i = emotional_cycle) (analyzeEmotionalPatterns rt2 fragments))
   \<and> map (\<lambda>i. (description i, relatedFragments i)) (detectEmotionalCycles rt1 k1 fragments)
     = map (\<lambda>i. (description i, relatedFragments i)) (detectEmotionalCycles rt2 k2 fragments)"
  by (simp only: only_cycles detectEmotionalCycles_content)

theorem C8_cycles_deterministic_witness:
  "map (\<lambda>i. (description i, relatedFragments i))
     (filter (\<lambda>i. type_ins i = emotional_cycle) (analyzeEmotionalPatterns exRuntime alternating))
   = map (\<lambda>i. (description i, relatedFragments i))
       (filter (\<lambda>i. type_ins i = emotional_cycle) (analyzeEmotionalPatterns otherRuntime alternating))
   \<and> map (\<lambda>i. (description i, relatedFragments i)) (detectEmotionalCycles exRuntime 0 alternating)
     = [(''Recurring emotional pattern: calm'' @ arrow @ ''anxious'' @ arrow @ ''calm'',
         [''f1'', ''f2'', ''f3'', ''f4'', ''f5''])]
   \<and> map (\<lambda>i. (description i, relatedFragments i)) (detectEmotionalCycles otherRuntime 3 alternating)
     = [(''Recurring emotional pattern: calm'' @ arrow @ ''anxious'' @ arrow @ ''calm'',
         [''f1'', ''f2'', ''f3'', ''f4'', ''f5''])]"
  using C8_cycles_deterministic [of exRuntime alternating otherRuntime 0 3]
    alternating_result [of exRuntime 0] alternating_result [of otherRuntime 3]
  by (simp only:)

subsection \<open>C9: deleting\<close>

text \<open>
  Claim C9: after a successful \<open>deleteFragment k\<close> on an initialized store, a
  \<open>getFragment k\<close> whose read request succeeds resolves to \<open>null\<close> (not found), and
  the blob store holds nothing under any payload id that the deleted metadata record
  named: the fragment's own id, each variation's id and each response's id; the
  payloads that only this fragment referenced are among them.
\<close>

theorem C9_delete_then_get:
  assumes del: "deleteFragment fails (Some d) k = (Inr (), Some d')"
    and rd: "\<not> fails' (Get FragmentsStore k)"
  shows "getFragment fails' (Some d') k = Inr None
    \<and> (\<forall>m. store_get (fragments_db d) k = Some m \<longrightarrow>
         (\<forall>key \<in> set (k # map id_var (variations m) @ map id_resp (responses m)).
            store_get (videoBlobs_db d') key = None))"
proof (cases "getFragment fails (Some d) k")
  case (Inl e)
  with del show ?thesis by (simp add: deleteFragment_def)
next
  case (Inr found)
  show ?thesis
  proof (cases found)
    case None
    with Inr del have same: "d' = d" by (simp add: deleteFragment_def)
    from Inr None have "store_get (fragments_db d) k = None"
      by (auto simp: getFragment_def split: if_splits option.splits sum.splits)
    with same rd show ?thesis by (simp add: getFragment_def)
  next
    case (Some g)
    from Inr Some obtain m where m: "store_get (fragments_db d) k = Some m"
      and g: "restoreBlobs fails d m = Inr g"
      by (auto simp: getFragment_def split: if_splits option.splits sum.splits)
    obtain r1 d1 where p1: "deleteVideoBlob fails k d = (r1, d1)"
      by (cases "deleteVideoBlob fails k d")
    obtain r2 d2 where p2: "deleteVariationBlobs fails (variations g) d1 = (r2, d2)"
      by (cases "deleteVariationBlobs fails (variations g) d1")
    obtain r3 d3 where p3: "deleteResponseBlobs fails (responses g) d2 = (r3, d3)"
      by (cases "deleteResponseBlobs fails (responses g) d2")
    from del Inr Some p1 obtain u1 where r1: "r1 = Inr u1"
      by (cases r1) (simp_all add: deleteFragment_def)
    from del Inr Some p1 r1 p2 obtain u2 where r2: "r2 = Inr u2"
      by (cases r2) (simp_all add: deleteFragment_def)
    from del Inr Some p1 r1 p2 r2 p3 obtain u3 where r3: "r3 = Inr u3"
      by (cases r3) (simp_all add: deleteFragment_def)
    from del Inr Some p1 r1 p2 r2 p3 r3
    have d': "d' = d3\<lparr>fragments_db := store_delete k (fragments_db d3)\<rparr>"
      by (simp add: deleteFragment_def split: if_splits)
    have blobs: "videoBlobs_db d' = videoBlobs_db d3" by (simp add: d')
    have "store_get (fragments_db d') k = None" by (simp add: d' store_get_delete)
    with rd have first: "getFragment fails' (Some d') k = Inr None"
      by (simp add: getFragment_def)
    have own1: "store_get (videoBlobs_db d1) k = None"
      using deleteVideoBlob_gone [OF p1 [unfolded r1]] .
    have own2: "store_get (videoBlobs_db d2) k = None"
      using deleteVariationBlobs_stays_gone [OF own1, of fails "variations g"] p2 by simp
    have own: "store_get (videoBlobs_db d') k = None"
      using deleteResponseBlobs_stays_gone [OF own2, of fails "responses g"] p3 blobs by simp
    have var: "store_get (videoBlobs_db d') key = None" if "key \<in> set (map id_var (variations m))" for key
    proof -
      from that restoreBlobs_ids [OF g] obtain v where v: "v \<in> set (variations g)"
        and key: "key = id_var v"
        by (metis (no_types, lifting) image_iff list.set_map)
      have "store_get (videoBlobs_db d2) key = None"
        using deleteVariationBlobs_gone [OF p2 [unfolded r2] v] key by simp
      then show ?thesis
        using deleteResponseBlobs_stays_gone [of d2 key fails "responses g"] p3 blobs by simp
    qed
    have resp: "store_get (videoBlobs_db d') key = None" if "key \<in> set (map id_resp (responses m))" for key
    proof -
      from that restoreBlobs_ids [OF g] obtain r where r: "r \<in> set (responses g)"
        and key: "key = id_resp r"
        by (metis (no_types, lifting) image_iff list.set_map)
      show ?thesis
        using deleteResponseBlobs_gone [OF p3 [unfolded r3] r] key blobs by simp
    qed
    from first m own var resp show ?thesis by auto
  qed
qed

theorem C9_delete_then_get_witness:
  "fst (deleteFragment noFailure savedState ''f1'') = Inr ()
   \<and> store_get (fragments_db (the savedState)) ''f1'' = Some (fragmentToSave exFragment)
   \<and> getFragment noFailure (snd (deleteFragment noFailure savedState ''f1'')) ''f1'' = Inr None
   \<and> store_get (videoBlobs_db (the (snd (deleteFragment noFailure savedState ''f1'')))) ''f1'' = None
   \<and> store_get (videoBlobs_db (the (snd (deleteFragment noFailure savedState ''f1'')))) ''v1'' = None
   \<and> store_get (videoBlobs_db (the (snd (deleteFragment noFailure savedState ''f1'')))) ''r1'' = None"
proof -
  have f: "fst (deleteFragment noFailure savedState ''f1'') = Inr ()"
    by (simp add: store_defs ex_defs)
  have del: "deleteFragment noFailure (Some (the savedState)) ''f1''
      = (Inr (), Some (the (snd (deleteFragment noFailure savedState ''f1''))))"
    by (simp add: store_defs ex_defs)
  have st: "Some (the savedState) = savedState"
    and st': "Some (the (snd (deleteFragment noFailure savedState ''f1'')))
               = snd (deleteFragment noFailure savedState ''f1'')"
    by (simp_all add: store_defs ex_defs)
  have rd: "\<not> noFailure (Get FragmentsStore ''f1'')" by (simp add: noFailure_def)
  have m: "store_get (fragments_db (the savedState)) ''f1'' = Some (fragmentToSave exFragment)"
    by (simp add: store_defs ex_defs)
  have ids: "set (''f1'' # map id_var (variations (fragmentToSave exFragment))
       @ map id_resp (responses (fragmentToSave exFragment))) = {''f1'', ''v1'', ''r1''}"
    by (simp add: fragmentToSave_def ex_defs)
  from C9_delete_then_get [of noFailure _ _ _ noFailure, OF del rd] m
  have get: "getFragment noFailure
               (Some (the (snd (deleteFragment noFailure savedState ''f1'')))) ''f1'' = Inr None"
    and gone: "\<forall>key \<in> set (''f1'' # map id_var (variations (fragmentToSave exFragment))
                 @ map id_resp (responses (fragmentToSave exFragment))).
        store_get (videoBlobs_db (the (snd (deleteFragment noFailure savedState ''f1'')))) key = None"
    by blast+
  from gone have "\<forall>key \<in> {''f1'', ''v1'', ''r1''}.
        store_get (videoBlobs_db (the (snd (deleteFragment noFailure savedState ''f1'')))) key = None"
    unfolding ids .
  with get f m show ?thesis unfolding st' by simp
qed

subsection \<open>C10: scores between 0 and 1\<close>

text \<open>
  Claim C10 as stated: when every resonance lies in \<open>[0, 5]\<close> and every pattern's
  confidence in \<open>[0, 1]\<close>, every returned score lies in \<open>[0, 1]\<close>. It fails for a
  fragment dated after the clock reading of the call: the recency term
  \<open>max 0 (1 - (now - timestamp) / 30 days)\<close> is bounded below only, and for
  \<open>futureFragment\<close>, dated 30 days ahead, it is 2 and the score is
  \<open>0.4 + 0.4 + 0.2 * 2 = 1.2\<close>.
\<close>

theorem C10_future_fragment_counterexample:
  "generateRecommendations exRuntime ''reflective'' [futureFragment] []
     = Inr [\<lparr>fragmentId = ''f1'', score = 6 / 5,
             reason = ''Matches your current reflective mood and has been helpful before'',
             type_rec = mood_match\<rparr>]
   \<and> map resonance (ratings futureFragment) = [5]
   \<and> (6 / 5 :: real) > 1"
  by (simp add: generateRecommendations_def findContrastLearning_def readProperty_def
      emotionOpposites_def objectPrototype_def findPatternCompletions_def
      findGrowthOpportunities_def calculateMoodScore_def futureFragment_def exRuntime_def day_def
      engine_ex_defs enumerate_eq_zip)

text \<open>
  C10, amended: when every resonance lies in \<open>[0, 5]\<close>, every pattern's confidence in
  \<open>[0, 1]\<close>, and no fragment is dated after a clock reading of the call, every entry
  of a list that \<open>generateRecommendations\<close> returns has a score in \<open>[0, 1]\<close>.
\<close>

theorem C10_scores_in_unit_interval:
  assumes res: "\<forall>f \<in> set fragments. \<forall>r \<in> set (ratings f). 0 \<le> resonance r \<and> resonance r \<le> 5"
    and conf: "\<forall>p \<in> set patterns. 0 \<le> confidence p \<and> confidence p \<le> 1"
    and tm: "\<forall>f \<in> set fragments. \<forall>n. timestamp_frag f \<le> real_of_int (dateNow rt n)"
    and ret: "generateRecommendations rt currentMood fragments patterns = Inr recommendations"
  shows "\<forall>r \<in> set recommendations. 0 \<le> score r \<and> score r \<le> 1"
proof
  fix r assume "r \<in> set recommendations"
  from generateRecommendations_members [OF ret this]
  consider j f where "f \<in> set fragments" "score r = calculateMoodScore (dateNow rt j) f"
    | "r \<in> set (findPatternCompletions currentMood fragments patterns)"
    | cs where "findContrastLearning currentMood fragments = Inr cs" "r \<in> set cs"
    | "r \<in> set (findGrowthOpportunities fragments patterns)"
    by blast
  then show "0 \<le> score r \<and> score r \<le> 1"
  proof cases
    case 1
    then show ?thesis using calculateMoodScore_bounds [of f "dateNow rt j"] res tm by simp
  next
    case 2
    then show ?thesis using findPatternCompletions_scores [OF conf] by blast
  next
    case 3
    then show ?thesis using findContrastLearning_scores by fastforce
  next
    case 4
    then show ?thesis using findGrowthOpportunities_scores by fastforce
  qed
qed

theorem C10_scores_in_unit_interval_witness:
  "generateRecommendations exRuntime ''reflective'' doubleTagScenario [] = Inr threeMoodMatches
   \<and> list_all (\<lambda>r. 0 \<le> score r \<and> score r \<le> 1) threeMoodMatches"
proof -
  have ret: "generateRecommendations exRuntime ''reflective'' doubleTagScenario []
               = Inr threeMoodMatches"
    by (simp add: rec_defs doubleTagScenario_def threeMoodMatches_def exRuntime_def
        engine_ex_defs enumerate_eq_zip)
  have res: "\<forall>f \<in> set doubleTagScenario. \<forall>r \<in> set (ratings f).
               0 \<le> resonance r \<and> resonance r \<le> 5"
    by (simp add: doubleTagScenario_def engine_ex_defs)
  have conf: "\<forall>p \<in> set ([] :: PatternInsight list). 0 \<le> confidence p \<and> confidence p \<le> 1"
    by simp
  have tm: "\<forall>f \<in> set doubleTagScenario. \<forall>n.
              timestamp_frag f \<le> real_of_int (dateNow exRuntime n)"
    by (simp add: doubleTagScenario_def engine_ex_defs exRuntime_def)
  from C10_scores_in_unit_interval [OF res conf tm ret]
  have "list_all (\<lambda>r. 0 \<le> score r \<and> score r \<le> 1) threeMoodMatches"
    by (simp only: list_all_iff)
  with ret show ?thesis by (simp only: simp_thms)
qed

end
